theory Spec2Isabelle
  imports Complex_Main "HOL-Library.Word"
begin

section \<open>Common conventions\<close>

text \<open>
  Python numbers are embedded exactly: an \<open>int\<close> is an \<^typ>\<open>int\<close>, and a float is
  the real number it denotes (\<^typ>\<open>real\<close>), so \<open>/\<close> is exact division and
  \<open>//\<close> is \<open>floor\<close> of the exact quotient. Rounding errors of IEEE arithmetic are
  outside this model, except in \<open>DeepEngraving\<close>, whose test for a depth that is a
  multiple of the step is decided by them: there every operation rounds to a double.
  An exception that leaves a method is the \<open>Inl\<close> of a sum; a method that falls off
  its end returns Python's \<open>None\<close>, which is \<open>None\<close> here too.
\<close>

datatype py_error =
  KeyError | IndexError | ZeroDivisionError | ValueError | TypeError | FileNotFoundError

definition bind_result :: "py_error + 'a \<Rightarrow> ('a \<Rightarrow> py_error + 'b) \<Rightarrow> py_error + 'b" where
  "bind_result m f = (case m of Inl e \<Rightarrow> Inl e | Inr x \<Rightarrow> f x)"

text \<open>\<open>xs[i]\<close> with Python's negative indices; out of range raises \<open>IndexError\<close>.\<close>

definition py_get :: "'a list \<Rightarrow> int \<Rightarrow> py_error + 'a" where
  "py_get xs i =
     (if 0 \<le> i \<and> i < int (length xs) then Inr (xs ! nat i)
      else if i < 0 \<and> - int (length xs) \<le> i then Inr (xs ! nat (int (length xs) + i))
      else Inl IndexError)"

text \<open>\<open>int(x)\<close> on a float truncates towards zero.\<close>

definition py_int :: "real \<Rightarrow> int" where
  "py_int x = (if 0 \<le> x then \<lfloor>x\<rfloor> else \<lceil>x\<rceil>)"

text \<open>\<open>round(x)\<close> on a float: to the nearest integer, a tie to the even one.\<close>

definition py_round :: "real \<Rightarrow> int" where
  "py_round x =
     (let f = \<lfloor>x\<rfloor>; d = x - of_int f
      in if d < 1 / 2 then f else if d > 1 / 2 then f + 1
         else if even f then f else f + 1)"

section \<open>materials.py: Interpolation\<close>

subsection \<open>get_interpolation\<close>

text \<open>
  \<open>lower_point\<close> and \<open>bigger_point\<close> are the two-element lists \<open>[x, y]\<close>. The callers
  pass integers for \<open>point\<close> and for both \<open>x\<close>, so \<open>int(...)\<close> is the identity on them
  and the \<open>ValueError\<close> handler (result 0) is never entered. Equal \<open>x\<close> with different
  \<open>y\<close> divides by zero, and that exception is not handled by the method.
\<close>

definition get_interpolation :: "int \<Rightarrow> int \<times> real \<Rightarrow> int \<times> real \<Rightarrow> py_error + real" where
  "get_interpolation point lower_point bigger_point =
     (if lower_point = bigger_point then Inr (snd lower_point)
      else if \<bar>fst bigger_point - fst lower_point\<bar> = 0 then Inl ZeroDivisionError
      else
        (let lower_diff = of_int \<bar>point - fst lower_point\<bar>
                            / of_int \<bar>fst bigger_point - fst lower_point\<bar>;
             bigger_diff = of_int \<bar>point - fst bigger_point\<bar>
                            / of_int \<bar>fst bigger_point - fst lower_point\<bar>
         in Inr (lower_diff * snd bigger_point + bigger_diff * snd lower_point)))"

text \<open>The textbook formula, for comparison.\<close>

definition linear_interpolation :: "int \<Rightarrow> int \<times> real \<Rightarrow> int \<times> real \<Rightarrow> real" where
  "linear_interpolation p P1 P2 =
     snd P1 + of_int (p - fst P1) * (snd P2 - snd P1) / of_int (fst P2 - fst P1)"

subsection \<open>The cost grid\<close>

text \<open>
  The \<open>COSTS\<close> section of a material's file, in file order. A key \<open>"label, w, h"\<close> is
  held split at \<open>", "\<close> with both numbers read (\<open>"small, 50, 30"\<close> is
  \<open>(''small'', 50, 30)\<close>), and a value is the list of its integers. The parser
  rejects a file that repeats a key.
\<close>

type_synonym row_key = "string \<times> int \<times> int"

type_synonym cost_grid = "(row_key \<times> int list) list"

definition key_area :: "row_key \<Rightarrow> int" where
  "key_area k = fst (snd k) * snd (snd k)"

text \<open>\<open>temp_cost_config[key]\<close>.\<close>

definition lookup :: "cost_grid \<Rightarrow> row_key \<Rightarrow> py_error + int list" where
  "lookup grid key =
     (case map_of grid key of None \<Rightarrow> Inl KeyError | Some cost_list \<Rightarrow> Inr cost_list)"

subsection \<open>get_keys\<close>

text \<open>The first loop: the rows of least and of greatest area, from the two start keys.\<close>

definition initial_bounds :: "row_key list \<Rightarrow> row_key \<times> row_key" where
  "initial_bounds keys =
     fold (\<lambda>key (lower_key, bigger_key).
             (if key_area key \<le> key_area lower_key then key else lower_key,
              if key_area key \<ge> key_area bigger_key then key else bigger_key))
       keys (('''', 1000000, 1000000), ('''', 0, 0))"

text \<open>The second loop, which stops at the first row whose area is the query's.\<close>

fun scan_keys :: "int \<Rightarrow> row_key list \<Rightarrow> row_key \<times> row_key \<Rightarrow> bool \<times> row_key \<times> row_key" where
  "scan_keys area [] (lower_key, bigger_key) = (False, lower_key, bigger_key)"
| "scan_keys area (k # ks) (lower_key, bigger_key) =
     (if key_area k = area then (True, k, bigger_key)
      else scan_keys area ks
             (if key_area k < area \<and> key_area k \<ge> key_area lower_key then k else lower_key,
              if key_area k \<ge> area \<and> key_area k \<le> key_area bigger_key then k else bigger_key))"

text \<open>The method returns one key (a \<open>str\<close>) or a list of two.\<close>

datatype keys_result = Single row_key | Pair row_key row_key

definition get_keys :: "cost_grid \<Rightarrow> int \<Rightarrow> int \<Rightarrow> keys_result" where
  "get_keys grid w h =
     (case scan_keys (w * h) (map fst grid) (initial_bounds (map fst grid)) of
        (key_get_point, lower_key, bigger_key) \<Rightarrow>
          if key_get_point then Single lower_key
          else if lower_key = bigger_key then Single lower_key
          else Pair lower_key bigger_key)"

subsection \<open>get_cost\<close>

definition numbering_list :: "int list" where
  "numbering_list = [1, 5, 15, 50, 150, 500, 1000]"

text \<open>\<open>xs.index(x)\<close> for an \<open>x\<close> that occurs in \<open>xs\<close>.\<close>

definition py_index :: "'a list \<Rightarrow> 'a \<Rightarrow> int" where
  "py_index xs x = int (length (takeWhile (\<lambda>y. y \<noteq> x) xs))"

text \<open>The loop over \<open>numbering_list\<close> that sets \<open>lower_index\<close> and \<open>bigger_index\<close>.\<close>

fun bounds_loop :: "int \<Rightarrow> int list \<Rightarrow> int \<times> int \<Rightarrow> py_error + int \<times> int" where
  "bounds_loop num [] (lower_index, bigger_index) = Inr (lower_index, bigger_index)"
| "bounds_loop num (item # items) (lower_index, bigger_index) =
     bind_result (py_get numbering_list lower_index) (\<lambda>lo.
     bind_result (py_get numbering_list bigger_index) (\<lambda>hi.
       bounds_loop num items
         (if lo \<le> item \<and> item \<le> num then py_index numbering_list item else lower_index,
          if hi \<ge> item \<and> item \<ge> num then py_index numbering_list item else bigger_index)))"

definition quantity_bounds :: "int \<Rightarrow> py_error + int \<times> int" where
  "quantity_bounds num = bounds_loop num numbering_list (0, - 1)"

text \<open>
  The call \<open>get_interpolation(num, [numbering_list[lower_index], costs[lower_index]],
  [numbering_list[bigger_index], costs[bigger_index]])\<close>, which the method makes for
  each list of prices it reads.
\<close>

definition row_cost :: "int list \<Rightarrow> int \<Rightarrow> int \<Rightarrow> int \<Rightarrow> py_error + real" where
  "row_cost cost_list num lower_index bigger_index =
     bind_result (py_get numbering_list lower_index) (\<lambda>x1.
     bind_result (py_get cost_list lower_index) (\<lambda>y1.
     bind_result (py_get numbering_list bigger_index) (\<lambda>x2.
     bind_result (py_get cost_list bigger_index) (\<lambda>y2.
       get_interpolation num (x1, of_int y1) (x2, of_int y2)))))"

text \<open>
  \<open>get_cost(height, width, num)\<close> passes \<open>(height, width)\<close> to
  \<open>get_keys(width, height)\<close>. It handles no exception.
\<close>

definition get_cost :: "cost_grid \<Rightarrow> int \<Rightarrow> int \<Rightarrow> int \<Rightarrow> py_error + real" where
  "get_cost grid h w num =
     (let lower_and_bigger_key = get_keys grid h w
      in bind_result (quantity_bounds num) (\<lambda>(lower_index, bigger_index).
           case lower_and_bigger_key of
             Single key \<Rightarrow>
               bind_result (lookup grid key) (\<lambda>cost_list.
                 row_cost cost_list num lower_index bigger_index)
           | Pair key_0 key_1 \<Rightarrow>
               bind_result (lookup grid key_0) (\<lambda>cost_lower_list.
               bind_result (lookup grid key_1) (\<lambda>cost_bigger_list.
               bind_result (row_cost cost_lower_list num lower_index bigger_index) (\<lambda>lower_cost.
               bind_result (row_cost cost_bigger_list num lower_index bigger_index) (\<lambda>bigger_cost.
                 get_interpolation (w * h)
                   (key_area key_0, lower_cost) (key_area key_1, bigger_cost)))))))"

subsection \<open>The grid the specification describes\<close>

text \<open>Every key occurs once and every row has seven prices.\<close>

definition well_formed :: "cost_grid \<Rightarrow> bool" where
  "well_formed grid = (distinct (map fst grid) \<and> (\<forall>r\<in>set grid. length (snd r) = 7))"

text \<open>
  The index of the greatest rung that is at most the quantity and of the least rung
  that is at least the quantity; below the ladder both are the first rung, above it
  both are the last.
\<close>

definition lower_rung :: "int \<Rightarrow> nat" where
  "lower_rung q =
     (case filter (\<lambda>i. numbering_list ! i \<le> q) [0..<7] of [] \<Rightarrow> 0 | i # is \<Rightarrow> last (i # is))"

definition upper_rung :: "int \<Rightarrow> nat" where
  "upper_rung q =
     (case filter (\<lambda>i. numbering_list ! i \<ge> q) [0..<7] of [] \<Rightarrow> 6 | i # is \<Rightarrow> i)"

definition interpolate_at_quantity :: "int list \<Rightarrow> int \<Rightarrow> real" where
  "interpolate_at_quantity prices q =
     (let i = lower_rung q; j = upper_rung q
      in if i = j then of_int (prices ! i)
         else linear_interpolation q (numbering_list ! i, of_int (prices ! i))
                (numbering_list ! j, of_int (prices ! j)))"

text \<open>
  The row of greatest area at most the query's and the row of least area at least the
  query's; among rows of equal area the one scanned last.
\<close>

definition lower_row :: "cost_grid \<Rightarrow> int \<Rightarrow> row_key \<times> int list" where
  "lower_row grid a =
     last (filter (\<lambda>r. key_area (fst r) \<le> a \<and>
                        (\<forall>r'\<in>set grid. key_area (fst r') \<le> a
                            \<longrightarrow> key_area (fst r') \<le> key_area (fst r)))
             grid)"

definition upper_row :: "cost_grid \<Rightarrow> int \<Rightarrow> row_key \<times> int list" where
  "upper_row grid a =
     last (filter (\<lambda>r. key_area (fst r) \<ge> a \<and>
                        (\<forall>r'\<in>set grid. key_area (fst r') \<ge> a
                            \<longrightarrow> key_area (fst r') \<ge> key_area (fst r)))
             grid)"

text \<open>Quantity axis first, on both rows; then the area axis between the two results.\<close>

definition bilinear_reference :: "cost_grid \<Rightarrow> int \<Rightarrow> int \<Rightarrow> int \<Rightarrow> real" where
  "bilinear_reference grid h w q =
     (let queryArea = w * h;
          lowerRow = lower_row grid queryArea;
          upperRow = upper_row grid queryArea;
          lowerRowPrice = interpolate_at_quantity (snd lowerRow) q;
          upperRowPrice = interpolate_at_quantity (snd upperRow) q
      in linear_interpolation queryArea
           (key_area (fst lowerRow), lowerRowPrice) (key_area (fst upperRow), upperRowPrice))"

text \<open>Three grids: one row; two rows of the same area; two rows of different areas.\<close>

definition scenario_b :: cost_grid where
  "scenario_b = [((''small'', 50, 30), [10, 20, 30, 40, 50, 60, 70])]"

definition same_area_grid :: cost_grid where
  "same_area_grid =
     [((''a'', 50, 30), [10, 20, 30, 40, 50, 60, 70]),
      ((''b'', 30, 50), [11, 21, 31, 41, 51, 61, 71])]"

definition two_row_grid :: cost_grid where
  "two_row_grid =
     [((''a'', 50, 30), [10, 20, 30, 40, 50, 60, 70]),
      ((''b'', 100, 50), [110, 210, 310, 410, 510, 610, 710])]"

section \<open>materials.py: ContainerPacking\<close>

text \<open>\<open>a // b\<close> on floats: the floor of the quotient, \<open>ZeroDivisionError\<close> for \<open>b = 0\<close>.\<close>

definition py_floordiv :: "real \<Rightarrow> real \<Rightarrow> py_error + real" where
  "py_floordiv a b = (if b = 0 then Inl ZeroDivisionError else Inr (of_int \<lfloor>a / b\<rfloor>))"

text \<open>
  The object as \<open>__init__\<close> leaves it: the sheet's width from the material table scaled
  by 0.9, its height unscaled, the item's dimensions, and both totals at 0.
\<close>

record container_packing =
  w_big :: real
  h_big :: real
  width :: int
  height :: int
  total_1 :: int
  total_2 :: int

definition container_packing_init :: "real \<Rightarrow> real \<Rightarrow> int \<Rightarrow> int \<Rightarrow> container_packing" where
  "container_packing_init gab_width gab_height item_width item_height =
     \<lparr>w_big = gab_width * (9 / 10), h_big = gab_height,
      width = item_width, height = item_height, total_1 = 0, total_2 = 0\<rparr>"

text \<open>The \<open>try\<close> block of \<open>figure_1\<close>: the value of \<open>self.total_1\<close> at its end.\<close>

definition figure_1_body :: "container_packing \<Rightarrow> py_error + int" where
  "figure_1_body self =
     bind_result (py_floordiv (w_big self) (of_int (width self))) (\<lambda>figure_per_rows.
     bind_result (py_floordiv (h_big self) (of_int (height self))) (\<lambda>figure_per_columns.
       let tot = total_1 self + py_int (figure_per_rows * figure_per_columns)
       in if w_big self - figure_per_rows * of_int (width self) \<ge> of_int (height self)
          then
            bind_result (py_floordiv (w_big self - figure_per_rows * of_int (width self))
                           (of_int (height self))) (\<lambda>x_2.
            bind_result (py_floordiv (h_big self) (of_int (width self))) (\<lambda>y_2.
              Inr (tot + py_int (x_2 * y_2))))
          else Inr tot))"

definition figure_1 :: "container_packing \<Rightarrow> py_error + int" where
  "figure_1 self =
     (case figure_1_body self of
        Inl ZeroDivisionError \<Rightarrow> Inr 0
      | Inl e \<Rightarrow> Inl e
      | Inr tot \<Rightarrow> Inr tot)"

definition figure_2_body :: "container_packing \<Rightarrow> py_error + int" where
  "figure_2_body self =
     bind_result (py_floordiv (w_big self) (of_int (height self))) (\<lambda>figure_per_rows.
     bind_result (py_floordiv (h_big self) (of_int (width self))) (\<lambda>figure_per_columns.
       let tot = total_2 self + py_int (figure_per_rows * figure_per_columns)
       in if w_big self - figure_per_rows * of_int (height self) \<ge> of_int (width self)
          then
            bind_result (py_floordiv (h_big self - figure_per_rows * of_int (height self))
                           (of_int (width self))) (\<lambda>x_2.
            bind_result (py_floordiv (h_big self) (of_int (height self))) (\<lambda>y_2.
              Inr (tot + py_int (x_2 * y_2))))
          else Inr tot))"

definition figure_2 :: "container_packing \<Rightarrow> py_error + int" where
  "figure_2 self =
     (case figure_2_body self of
        Inl ZeroDivisionError \<Rightarrow> Inr 0
      | Inl e \<Rightarrow> Inl e
      | Inr tot \<Rightarrow> Inr tot)"

text \<open>
  The band the leftover strip of the usable width holds, for an item placed as
  \<open>w'\<close> by \<open>h'\<close>: \<open>floor(leftover / h') * floor(usableHeight / w')\<close>.
\<close>

definition leftover_band :: "real \<Rightarrow> real \<Rightarrow> int \<Rightarrow> int \<Rightarrow> int" where
  "leftover_band usable_width usable_height w' h' =
     \<lfloor>(usable_width - of_int \<lfloor>usable_width / of_int w'\<rfloor> * of_int w') / of_int h'\<rfloor>
       * \<lfloor>usable_height / of_int w'\<rfloor>"

section \<open>Doubles\<close>

text \<open>
  A double is a real of the form \<open>m * 2^e\<close> with \<open>|m| < 2^53\<close>; the exponent is not
  bounded here, so overflow, subnormal numbers, infinities, NaN and the sign of zero
  are outside the model. \<open>binary_exponent x\<close> is the \<open>e\<close> with \<open>2^e \<le> x < 2^(e+1)\<close> for a positive
  \<open>x\<close>, and \<open>to_double\<close> rounds to the nearest double, a tie to the even mantissa.
\<close>

definition pow2 :: "int \<Rightarrow> real" where
  "pow2 e = (if 0 \<le> e then 2 ^ nat e else 1 / 2 ^ nat (- e))"

function bit_length :: "int \<Rightarrow> nat" where
  "bit_length n = (if n \<le> 0 then 0 else Suc (bit_length (n div 2)))"
  by pat_completeness auto
termination
  by (relation "measure nat") auto

declare bit_length.simps [simp del]

definition binary_exponent :: "real \<Rightarrow> int" where
  "binary_exponent x =
     (if 1 \<le> x then int (bit_length \<lfloor>x\<rfloor>) - 1
      else - int (bit_length (\<lceil>1 / x\<rceil> - 1)))"

definition to_double :: "real \<Rightarrow> real" where
  "to_double x =
     (if x = 0 then 0
      else let q = pow2 (binary_exponent \<bar>x\<bar> - 52)
           in of_int (py_round (x / q)) * q)"

text \<open>\<open>+\<close>, \<open>-\<close>, \<open>*\<close> and \<open>/\<close> of two floats: the exact result, rounded.\<close>

definition float_add :: "real \<Rightarrow> real \<Rightarrow> real" where
  "float_add a b = to_double (a + b)"

definition float_sub :: "real \<Rightarrow> real \<Rightarrow> real" where
  "float_sub a b = to_double (a - b)"

definition float_mul :: "real \<Rightarrow> real \<Rightarrow> real" where
  "float_mul a b = to_double (a * b)"

definition float_truediv :: "real \<Rightarrow> real \<Rightarrow> py_error + real" where
  "float_truediv a b = (if b = 0 then Inl ZeroDivisionError else Inr (to_double (a / b)))"

text \<open>C's \<open>fmod\<close>, which is exact: the remainder has the sign of the dividend.\<close>

definition fmod :: "real \<Rightarrow> real \<Rightarrow> real" where
  "fmod a b = a - of_int (py_int (a / b)) * b"

text \<open>
  \<open>divmod\<close> of two floats as the interpreter computes it, which \<open>//\<close> and \<open>%\<close> share:
  \<open>fmod\<close>, the quotient \<open>(vx - mod) / wx\<close>, a step back when the remainder and the
  divisor differ in sign, and the quotient rounded to a whole number.
\<close>

definition float_divmod :: "real \<Rightarrow> real \<Rightarrow> py_error + real \<times> real" where
  "float_divmod vx wx =
     (if wx = 0 then Inl ZeroDivisionError
      else
        let m = fmod vx wx;
            d = to_double (float_sub vx m / wx);
            adjust = (m \<noteq> 0 \<and> (wx < 0) \<noteq> (m < 0));
            m' = (if adjust then float_add m wx else m);
            d' = (if adjust then float_sub d 1 else d);
            floordiv = (if d' \<noteq> 0
                        then (if float_sub d' (of_int \<lfloor>d'\<rfloor>) > 1 / 2
                              then float_add (of_int \<lfloor>d'\<rfloor>) 1
                              else of_int \<lfloor>d'\<rfloor>)
                        else 0)
        in Inr (floordiv, m'))"

definition float_floordiv :: "real \<Rightarrow> real \<Rightarrow> py_error + real" where
  "float_floordiv a b = bind_result (float_divmod a b) (\<lambda>(q, r). Inr q)"

definition float_mod :: "real \<Rightarrow> real \<Rightarrow> py_error + real" where
  "float_mod a b = bind_result (float_divmod a b) (\<lambda>(q, r). Inr r)"

section \<open>calculations.py\<close>

text \<open>
  A value that reaches a numeric parameter or a numeric field of a configuration
  file: \<open>Num r\<close> is a number, or text that writes the number \<open>r\<close>; \<open>Str s\<close> is text
  that is no number; \<open>NoneVal\<close> is \<open>None\<close>. \<open>float\<close> gives the double nearest to \<open>r\<close>.
\<close>

datatype py_value = Num real | Str string | NoneVal

definition py_float :: "py_value \<Rightarrow> py_error + real" where
  "py_float v =
     (case v of Num r \<Rightarrow> Inr (to_double r) | Str s \<Rightarrow> Inl ValueError
      | NoneVal \<Rightarrow> Inl TypeError)"

definition is_num :: "py_value \<Rightarrow> bool" where
  "is_num v = (case v of Num r \<Rightarrow> True | _ \<Rightarrow> False)"

text \<open>\<open>v <= b\<close> and \<open>v >= b\<close> for a number \<open>b\<close>: a \<open>TypeError\<close> unless \<open>v\<close> is a number.\<close>

definition py_le :: "py_value \<Rightarrow> real \<Rightarrow> py_error + bool" where
  "py_le v b = (case v of Num a \<Rightarrow> Inr (a \<le> b) | _ \<Rightarrow> Inl TypeError)"

definition py_ge :: "py_value \<Rightarrow> real \<Rightarrow> py_error + bool" where
  "py_ge v b = (case v of Num a \<Rightarrow> Inr (a \<ge> b) | _ \<Rightarrow> Inl TypeError)"

definition py_sub :: "py_value \<Rightarrow> real \<Rightarrow> py_error + real" where
  "py_sub v b = (case v of Num a \<Rightarrow> Inr (a - b) | _ \<Rightarrow> Inl TypeError)"

definition py_truediv :: "real \<Rightarrow> real \<Rightarrow> py_error + real" where
  "py_truediv a b = (if b = 0 then Inl ZeroDivisionError else Inr (a / b))"

datatype log_level = Log_error | Log_warning | Log_info

type_synonym log_entry = "string \<times> log_level"

subsection \<open>RatioArea\<close>

record ratio_area =
  area_min :: real
  area_max :: real
  ratio_max :: real
  ratio_min :: real

text \<open>\<open>ratio_min\<close> defaults to 1.\<close>

definition ratio_area_init :: "real \<Rightarrow> real \<Rightarrow> real \<Rightarrow> ratio_area" where
  "ratio_area_init amin amax rmax =
     \<lparr>area_min = amin, area_max = amax, ratio_max = rmax, ratio_min = 1\<rparr>"

definition linear_ratio_body :: "ratio_area \<Rightarrow> py_value \<Rightarrow> py_error + real" where
  "linear_ratio_body self area =
     bind_result (py_le area (area_min self)) (\<lambda>below.
       if below then Inr (ratio_min self)
       else bind_result (py_ge area (area_max self)) (\<lambda>above.
         if above then Inr (ratio_max self)
         else
           bind_result (py_sub area (area_min self)) (\<lambda>d.
           bind_result (py_truediv (d * \<bar>ratio_max self - ratio_min self\<bar>)
                          (area_max self - area_min self)) (\<lambda>q.
             Inr (q + ratio_min self)))))"

text \<open>
  A method returns a value (\<open>Some\<close>), returns \<open>None\<close>, or raises; with it come the
  entries it wrote to the log.
\<close>

definition get_linear_ratio ::
    "ratio_area \<Rightarrow> py_value \<Rightarrow> (py_error + real option) \<times> log_entry list" where
  "get_linear_ratio self area =
     (case linear_ratio_body self area of
        Inr r \<Rightarrow> (Inr (Some r), [])
      | Inl e \<Rightarrow>
          if e = ValueError \<or> e = TypeError
          then (Inr (Some 1), [(''RatioArea.get_linear_ratio'', Log_error)])
          else (Inl e, []))"

definition polynomial_ratio_body :: "ratio_area \<Rightarrow> py_value \<Rightarrow> py_error + real" where
  "polynomial_ratio_body self area =
     bind_result (py_le area (area_min self)) (\<lambda>below.
       if below then Inr (ratio_min self)
       else bind_result (py_ge area (area_max self)) (\<lambda>above.
         if above then Inr (ratio_max self)
         else
           bind_result (py_truediv (ratio_max self - ratio_min self)
                          ((area_max self - area_min self) ^ 2)) (\<lambda>q.
           bind_result (py_sub area (area_min self)) (\<lambda>d.
             Inr (q * d ^ 2 + ratio_min self)))))"

text \<open>The handler of \<open>get_polynomial_ratio\<close> logs and has no \<open>return\<close>.\<close>

definition get_polynomial_ratio ::
    "ratio_area \<Rightarrow> py_value \<Rightarrow> (py_error + real option) \<times> log_entry list" where
  "get_polynomial_ratio self area =
     (case polynomial_ratio_body self area of
        Inr r \<Rightarrow> (Inr (Some r), [])
      | Inl e \<Rightarrow>
          if e = ValueError \<or> e = TypeError
          then (Inr None, [(''RatioArea.get_polynomial_ratio'', Log_error)])
          else (Inl e, []))"

subsection \<open>DeepEngraving\<close>

text \<open>
  \<open>self.config['MAIN']\<close> maps a material to its profile text; the model holds the text
  already split at \<open>", "\<close>. The two comments are constants of the source.
\<close>

type_synonym depth_config = "string \<rightharpoonup> py_value list"

datatype comment = No_focus_change | Focus_change

type_synonym depth_plan = "comment \<times> real \<times> real list"

fun float_all :: "py_value list \<Rightarrow> py_error + real list" where
  "float_all [] = Inr []"
| "float_all (x # xs) =
     bind_result (py_float x) (\<lambda>r. bind_result (float_all xs) (\<lambda>rs. Inr (r # rs)))"

text \<open>The \<open>try\<close> block: the profile as numbers and the depth as a number.\<close>

definition depth_parse :: "depth_config \<Rightarrow> string \<Rightarrow> py_value \<Rightarrow> py_error + real list \<times> real" where
  "depth_parse config material_name depth =
     (case config material_name of
        None \<Rightarrow> Inl KeyError
      | Some parts \<Rightarrow>
          bind_result (float_all parts) (\<lambda>set_depth.
          bind_result (py_float depth) (\<lambda>d. Inr (set_depth, d))))"

text \<open>
  The \<open>else\<close> block, which no handler covers. The profile and the depth are doubles,
  and so is every intermediate result; an \<open>int\<close> that meets a float is converted first.
\<close>

definition depth_plan_of :: "real list \<Rightarrow> real \<Rightarrow> py_error + depth_plan" where
  "depth_plan_of set_depth depth =
     bind_result (py_get set_depth 0) (\<lambda>s0.
       if depth \<le> s0 then
         bind_result (float_truediv depth s0) (\<lambda>q.
         bind_result (py_get set_depth 1) (\<lambda>s1.
           Inr (No_focus_change, of_int (py_int (float_mul q s1)), [])))
       else
         bind_result (float_floordiv depth s0) (\<lambda>fl.
         bind_result (float_mod depth s0) (\<lambda>remnant.
         bind_result (py_get set_depth 1) (\<lambda>s1.
         bind_result (float_truediv remnant s0) (\<lambda>r.
           let count_changes = py_int fl;
               ending = py_int (float_mul r s1);
               result = float_add (float_mul (to_double (of_int count_changes)) s1)
                          (to_double (of_int ending))
           in if remnant = 0
              then Inr (Focus_change, result,
                        [of_int (count_changes - 1), s1, s0, of_int (py_int s1)])
              else Inr (Focus_change, result,
                        [of_int count_changes, s1, s0, of_int ending]))))))"

definition depth_calculate ::
    "depth_config \<Rightarrow> string \<Rightarrow> py_value \<Rightarrow> (py_error + depth_plan option) \<times> log_entry list" where
  "depth_calculate config material_name depth =
     (case depth_parse config material_name depth of
        Inl e \<Rightarrow>
          if e = KeyError \<or> e = TypeError \<or> e = ValueError
          then (Inr None, [(''DeepEngraving.depth_calculate'', Log_error)])
          else (Inl e, [])
      | Inr (set_depth, d) \<Rightarrow>
          (case depth_plan_of set_depth d of
             Inl e \<Rightarrow> (Inl e, [])
           | Inr plan \<Rightarrow> (Inr (Some plan), [])))"

section \<open>main.py: rounding and the price of a custom job\<close>

definition round_result :: "real \<Rightarrow> int" where
  "round_result cost =
     (if cost \<ge> 800 then py_round (cost / 50) * 50
      else if 250 \<le> cost \<and> cost < 800 then py_round (cost / 10) * 10
      else if 85 \<le> cost \<and> cost < 250 then py_round (cost / 5) * 5
      else py_int cost)"

text \<open>
  What \<open>get_ratio_for_calculation\<close> leaves in the object for \<open>main_calculation\<close>, with the
  base cost, the number of items and the design surcharge read from the form.
\<close>

record calculation =
  cost :: int
  additional_cost :: int
  ratio_laser :: real
  ratio_rotation :: real
  ratio_different_layouts :: real
  ratio_timing :: real
  ratio_packing :: real
  ratio_thermal_graving :: real
  ratio_oversize :: real
  ratio_numbering :: real
  ratio_attention :: real
  ratio_hand_job :: real
  ratio_docking :: real
  ratio_difficult :: real
  ratio_depth :: real
  ratio_size :: real
  ratio_taxation_ao :: real
  ratio_taxation_ip :: real
  ratio_many_items :: real
  ratio_one_set :: real
  ratio_discount :: real
  spin_number :: int
  cost_design :: real

definition main_cost :: "calculation \<Rightarrow> real" where
  "main_cost c =
     (of_int (additional_cost c) + of_int (cost c) *
        (ratio_laser c * ratio_rotation c * ratio_different_layouts c * ratio_timing c *
         ratio_packing c * ratio_thermal_graving c * ratio_oversize c * ratio_numbering c *
         ratio_attention c * ratio_hand_job c * ratio_docking c * ratio_difficult c *
         ratio_depth c * ratio_size c))
       * ratio_taxation_ao c * ratio_taxation_ip c * ratio_many_items c * ratio_one_set c
       * ratio_discount c"

text \<open>The two numbers \<open>main_calculation\<close> shows: the price of one item and of the order.\<close>

definition main_calculation :: "calculation \<Rightarrow> int \<times> real" where
  "main_calculation c =
     (round_result (main_cost c),
      of_int (round_result (main_cost c) * spin_number c) + cost_design c)"

text \<open>
  The ratios of \<open>get_ratio_for_calculation\<close> that depend on the number of items, the
  number in one setup, the number of aims and the discount. The two powers with a
  configured real exponent are parameters.
\<close>

definition many_items_ratio :: "int \<Rightarrow> real \<Rightarrow> real" where
  "many_items_ratio number pw =
     (if number = 1 then 1
      else if 1 < number \<and> number \<le> 5 then 1 - of_int number / 10
      else (85 / 100) * pw)"

definition one_set_ratio :: "int \<Rightarrow> real \<Rightarrow> real" where
  "one_set_ratio spin_group pw = (if spin_group = 1 then 1 else pw)"

definition aim_cost :: "int \<Rightarrow> int \<Rightarrow> int" where
  "aim_cost aim per_aim = (if aim > 1 then (aim - 1) * per_aim else 0)"

definition discount_ratio :: "real \<Rightarrow> real" where
  "discount_ratio discount = 1 - discount / 100"

text \<open>Scenario C: base cost 1000, one item, one per setup, one aim, no discount.\<close>

definition scenario_c :: "int \<Rightarrow> real \<Rightarrow> real \<Rightarrow> calculation" where
  "scenario_c per_aim pw_items pw_set =
     \<lparr>cost = 1000, additional_cost = aim_cost 1 per_aim,
      ratio_laser = 1, ratio_rotation = 1, ratio_different_layouts = 1, ratio_timing = 1,
      ratio_packing = 1, ratio_thermal_graving = 1, ratio_oversize = 1, ratio_numbering = 1,
      ratio_attention = 1, ratio_hand_job = 1, ratio_docking = 1, ratio_difficult = 1,
      ratio_depth = 1, ratio_size = 1, ratio_taxation_ao = 1, ratio_taxation_ip = 1,
      ratio_many_items = many_items_ratio 1 pw_items, ratio_one_set = one_set_ratio 1 pw_set,
      ratio_discount = discount_ratio 0, spin_number = 1, cost_design = 0\<rparr>"

text \<open>A multiple of \<open>m\<close> no further from \<open>c\<close> than half of \<open>m\<close>.\<close>

definition nearest_multiple :: "int \<Rightarrow> real \<Rightarrow> int \<Rightarrow> bool" where
  "nearest_multiple m c r = (m dvd r \<and> 2 * \<bar>of_int r - c\<bar> \<le> of_int m)"

section \<open>bmp_read.py\<close>

text \<open>
  The file is its bytes, or \<open>None\<close> when it cannot be opened. \<open>f.read(n)\<close> at
  position \<open>pos\<close> returns at most \<open>n\<close> bytes and moves the position by as many as it
  returned.
\<close>

type_synonym byte = "8 word"

definition file_read :: "byte list \<Rightarrow> nat \<Rightarrow> nat \<Rightarrow> byte list" where
  "file_read data pos n = take n (drop pos data)"

text \<open>\<open>int.from_bytes(bs, byteorder='little')\<close>.\<close>

fun from_bytes_little :: "byte list \<Rightarrow> nat" where
  "from_bytes_little [] = 0"
| "from_bytes_little (b # bs) = unat b + 256 * from_bytes_little bs"

text \<open>The two resolutions are attributes only once they have been read.\<close>

record monochrome_bmp =
  bmp_width :: nat
  bmp_height :: nat
  x_pixels_per_meter :: "nat option"
  y_pixels_per_meter :: "nat option"
  pixel_data :: "nat list list"

definition monochrome_bmp_init :: monochrome_bmp where
  "monochrome_bmp_init =
     \<lparr>bmp_width = 0, bmp_height = 0, x_pixels_per_meter = None, y_pixels_per_meter = None,
      pixel_data = []\<rparr>"

text \<open>The loop over \<open>bit\<close> for byte number \<open>x\<close> of a row.\<close>

definition byte_bits :: "nat \<Rightarrow> nat \<Rightarrow> nat \<Rightarrow> nat list" where
  "byte_bits w x byte_value =
     map (\<lambda>bit. if and byte_value (push_bit (7 - bit) 1) \<noteq> 0 then 1 else 0)
       (filter (\<lambda>bit. x * 8 + bit < w) [0..<8])"

text \<open>The loop over \<open>x\<close>; \<open>ord\<close> of the empty read at the end of the file raises.\<close>

fun read_row :: "byte list \<Rightarrow> nat \<Rightarrow> nat list \<Rightarrow> nat \<times> nat list \<Rightarrow> py_error + nat \<times> nat list" where
  "read_row data w [] (pos, row) = Inr (pos, row)"
| "read_row data w (x # xs) (pos, row) =
     (case file_read data pos 1 of
        [byte] \<Rightarrow> read_row data w xs (pos + 1, row @ byte_bits w x (unat byte))
      | _ \<Rightarrow> Inl TypeError)"

text \<open>
  The loop over \<open>y\<close>. An exception ends it; the rows appended before stay in
  \<open>pixel_data\<close>.
\<close>

fun read_rows :: "byte list \<Rightarrow> nat \<Rightarrow> nat \<Rightarrow> nat \<Rightarrow> nat list \<Rightarrow> nat \<times> nat list list
    \<Rightarrow> py_error option \<times> nat list list" where
  "read_rows data w row_size padding [] (pos, rows) = (None, rows)"
| "read_rows data w row_size padding (y # ys) (pos, rows) =
     (case read_row data w [0..<row_size] (pos, []) of
        Inl e \<Rightarrow> (Some e, rows)
      | Inr (pos', row) \<Rightarrow>
          read_rows data w row_size padding ys
            (pos' + length (file_read data pos' padding), rows @ [row]))"

text \<open>
  \<open>__init__\<close> followed by \<open>_read_bmp\<close>: the object, and the exception the handler
  caught and logged, if any.
\<close>

definition read_bmp :: "byte list option \<Rightarrow> monochrome_bmp \<times> py_error option" where
  "read_bmp opened =
     (case opened of
        None \<Rightarrow> (monochrome_bmp_init, Some FileNotFoundError)
      | Some data \<Rightarrow>
          (let w = from_bytes_little (file_read data 18 4);
               h = from_bytes_little (file_read data (18 + length (file_read data 18 4)) 4);
               xppm = from_bytes_little (file_read data 38 4);
               yppm = from_bytes_little (file_read data (38 + length (file_read data 38 4)) 4);
               pixel_array_offset = from_bytes_little (file_read data 10 4);
               row_size = (w + 7) div 8;
               padding = (row_size + 3) div 4 * 4 - row_size;
               (err, rows) = read_rows data w row_size padding [0..<h] (pixel_array_offset, [])
           in (\<lparr>bmp_width = w, bmp_height = h, x_pixels_per_meter = Some xppm,
                y_pixels_per_meter = Some yppm, pixel_data = rows\<rparr>, err)))"

definition count_pixels :: "monochrome_bmp \<Rightarrow> nat \<times> nat" where
  "count_pixels self =
     fold (\<lambda>row (white_pixels, black_pixels).
             (white_pixels + count_list row 1, black_pixels + count_list row 0))
       (pixel_data self) (0, 0)"

definition row_ok :: "nat \<Rightarrow> nat list \<Rightarrow> bool" where
  "row_ok w row = (length row = w \<and> set row \<subseteq> {0, 1})"

text \<open>
  A file of 34 bytes: the pixel array starts at byte 26, the image is 3 wide and 2
  high, and each row is one byte of pixels and three of padding.
\<close>

definition example_file :: "byte list" where
  "example_file =
     [0, 0, 0, 0, 0, 0, 0, 0, 0, 0, 26, 0, 0, 0, 0, 0, 0, 0,
      3, 0, 0, 0, 2, 0, 0, 0,
      160, 0, 0, 0, 64, 0, 0, 0]"

section \<open>Properties of get_interpolation\<close>

lemma get_interpolation_same: "get_interpolation p (x, y) (x, y) = Inr y"
  by (simp add: get_interpolation_def)

lemma weighted_sum_linear:
  fixes a b d y1 y2 :: real
  assumes "d \<noteq> 0" "a + b = d"
  shows "a / d * y2 + b / d * y1 = y1 + a * (y2 - y1) / d"
proof -
  have "a * y1 + b * y1 = d * y1"
    using assms(2) by (simp flip: distrib_right)
  then show ?thesis using assms(1) by (simp add: field_simps)
qed

lemma get_interpolation_between:
  assumes "x1 < x2" "x1 \<le> p" "p \<le> x2"
  shows "get_interpolation p (x1, y1) (x2, y2) = Inr (linear_interpolation p (x1, y1) (x2, y2))"
proof -
  have d: "(of_int (x2 - x1) :: real) \<noteq> 0"
    using assms(1) by simp
  have s: "(of_int (p - x1) :: real) + of_int (x2 - p) = of_int (x2 - x1)"
    by simp
  have a: "\<bar>p - x1\<bar> = p - x1" "\<bar>p - x2\<bar> = x2 - p" "\<bar>x2 - x1\<bar> = x2 - x1"
    using assms by simp_all
  have n: "(x1, y1) \<noteq> (x2, y2)" "x2 - x1 \<noteq> 0"
    using assms(1) by simp_all
  show ?thesis
    unfolding get_interpolation_def linear_interpolation_def Let_def fst_conv snd_conv a
    using n weighted_sum_linear [OF d s, of y2 y1] by simp
qed



section \<open>Properties of get_cost\<close>

subsection \<open>The quantity axis\<close>

lemma quantity_bounds_eq:
  "quantity_bounds num = Inr
     (if num < 5 then 0 else if num < 15 then 1 else if num < 50 then 2
      else if num < 150 then 3 else if num < 500 then 4 else if num < 1000 then 5 else 6,
      if num \<le> 1 then 0 else if num \<le> 5 then 1 else if num \<le> 15 then 2
      else if num \<le> 50 then 3 else if num \<le> 150 then 4 else if num \<le> 500 then 5
      else if num \<le> 1000 then 6 else - 1)"
  by (simp add: quantity_bounds_def numbering_list_def py_get_def bind_result_def py_index_def)

lemma rungs_eq:
  "lower_rung num =
     (if num < 5 then 0 else if num < 15 then 1 else if num < 50 then 2
      else if num < 150 then 3 else if num < 500 then 4 else if num < 1000 then 5 else 6)"
  "upper_rung num =
     (if num \<le> 1 then 0 else if num \<le> 5 then 1 else if num \<le> 15 then 2
      else if num \<le> 50 then 3 else if num \<le> 150 then 4 else if num \<le> 500 then 5 else 6)"
  by (simp_all add: lower_rung_def upper_rung_def numbering_list_def upt_rec)

text \<open>
  The loop finds the rungs the specification names; its \<open>bigger_index\<close> may be \<open>-1\<close>,
  which reads the last rung and the last price.
\<close>

lemma quantity_bounds_rungs:
  "\<exists>bi. quantity_bounds num = Inr (int (lower_rung num), bi) \<and>
        py_get numbering_list bi = Inr (numbering_list ! upper_rung num) \<and>
        (\<forall>ps. length ps = 7 \<longrightarrow> py_get ps bi = Inr (ps ! upper_rung num))"
  unfolding quantity_bounds_eq rungs_eq
  by (simp add: py_get_def numbering_list_def)

lemma rung_bounds: "lower_rung num < 7" "upper_rung num < 7"
  by (simp_all add: rungs_eq)

lemma rung_order:
  "lower_rung num = upper_rung num \<or>
   (numbering_list ! lower_rung num < numbering_list ! upper_rung num \<and>
    numbering_list ! lower_rung num \<le> num \<and> num \<le> numbering_list ! upper_rung num)"
  by (simp add: rungs_eq numbering_list_def)

lemma py_get_nat: "i < length xs \<Longrightarrow> py_get xs (int i) = Inr (xs ! i)"
  by (simp add: py_get_def)

lemma row_cost_rungs:
  assumes "length ps = 7" "quantity_bounds num = Inr (li, bi)"
  shows "row_cost ps num li bi = Inr (interpolate_at_quantity ps num)"
proof -
  from quantity_bounds_rungs [of num] assms(2)
  have li: "li = int (lower_rung num)"
    and bn: "py_get numbering_list bi = Inr (numbering_list ! upper_rung num)"
    and bp: "py_get ps bi = Inr (ps ! upper_rung num)"
    using assms(1) by auto
  have ln: "py_get numbering_list li = Inr (numbering_list ! lower_rung num)"
    unfolding li using rung_bounds(1) [of num]
    by (intro py_get_nat) (simp add: numbering_list_def)
  have lp: "py_get ps li = Inr (ps ! lower_rung num)"
    unfolding li using rung_bounds(1) [of num] assms(1) by (intro py_get_nat) simp
  have rc: "row_cost ps num li bi = get_interpolation num
      (numbering_list ! lower_rung num, of_int (ps ! lower_rung num))
      (numbering_list ! upper_rung num, of_int (ps ! upper_rung num))"
    by (simp add: row_cost_def ln lp bn bp bind_result_def)
  show ?thesis
  proof (cases "lower_rung num = upper_rung num")
    case True
    then show ?thesis
      unfolding rc by (simp add: get_interpolation_same interpolate_at_quantity_def)
  next
    case False
    with rung_order [of num] have
      "numbering_list ! lower_rung num < numbering_list ! upper_rung num"
      "numbering_list ! lower_rung num \<le> num" "num \<le> numbering_list ! upper_rung num"
      by auto
    from get_interpolation_between [OF this] False show ?thesis
      unfolding rc by (simp add: interpolate_at_quantity_def Let_def)
  qed
qed

lemma quantity_bounds_rung:
  assumes "i < 7"
  shows "quantity_bounds (numbering_list ! i) = Inr (int i, int i)"
proof -
  from assms have "i = 0 \<or> i = 1 \<or> i = 2 \<or> i = 3 \<or> i = 4 \<or> i = 5 \<or> i = 6"
    by linarith
  then show ?thesis
    by (auto simp: quantity_bounds_eq numbering_list_def)
qed

lemma row_cost_rung:
  assumes "i < 7" "length ps = 7"
  shows "row_cost ps num (int i) (int i) = Inr (of_int (ps ! i))"
  using assms
  by (simp add: row_cost_def py_get_nat numbering_list_def bind_result_def
      get_interpolation_same)

subsection \<open>The scan of the keys\<close>

lemma initial_bounds_fold:
  assumes "fold (\<lambda>key (lower_key, bigger_key).
             (if key_area key \<le> key_area lower_key then key else lower_key,
              if key_area key \<ge> key_area bigger_key then key else bigger_key))
           ks (l0, b0) = (l, b)"
  shows "(\<forall>k\<in>set ks. key_area l \<le> key_area k) \<and> key_area l \<le> key_area l0 \<and>
         (\<forall>k\<in>set ks. key_area k \<le> key_area b) \<and> key_area b0 \<le> key_area b"
  using assms
proof (induction ks arbitrary: l0 b0)
  case Nil
  then show ?case by simp
next
  case (Cons k ks)
  let ?l1 = "if key_area k \<le> key_area l0 then k else l0"
  let ?b1 = "if key_area k \<ge> key_area b0 then k else b0"
  from Cons.prems have "fold (\<lambda>key (lower_key, bigger_key).
             (if key_area key \<le> key_area lower_key then key else lower_key,
              if key_area key \<ge> key_area bigger_key then key else bigger_key))
           ks (?l1, ?b1) = (l, b)"
    by simp
  from Cons.IH [OF this] show ?case
    by (auto split: if_splits)
qed

lemma initial_bounds_extreme:
  assumes "k \<in> set ks"
  shows "key_area (fst (initial_bounds ks)) \<le> key_area k"
    and "key_area k \<le> key_area (snd (initial_bounds ks))"
proof -
  obtain l b where lb: "initial_bounds ks = (l, b)" by (cases "initial_bounds ks")
  from initial_bounds_fold [OF lb [unfolded initial_bounds_def]] assms
  show "key_area (fst (initial_bounds ks)) \<le> key_area k"
    and "key_area k \<le> key_area (snd (initial_bounds ks))"
    by (simp_all add: lb)
qed

lemma scan_keys_flag:
  "\<forall>k\<in>set ks. key_area k \<noteq> a \<Longrightarrow> fst (scan_keys a ks (l, b)) = False"
  by (induction ks arbitrary: l b) simp_all

lemma scan_keys_keep_lower:
  assumes "\<forall>k'\<in>set ks. key_area k' \<noteq> a \<and> (key_area k' < a \<longrightarrow> key_area k' < key_area k)"
  shows "fst (snd (scan_keys a ks (k, b))) = k"
  using assms by (induction ks arbitrary: b) auto

lemma scan_keys_keep_bigger:
  assumes "\<forall>k'\<in>set ks. key_area k' \<noteq> a \<and> (key_area k' > a \<longrightarrow> key_area k' > key_area k)"
  shows "snd (snd (scan_keys a ks (l, k))) = k"
  using assms by (induction ks arbitrary: l) (auto simp: less_le)

lemma scan_keys_lower:
  assumes "\<forall>k'\<in>set (ks1 @ k # ks2). key_area k' \<noteq> a"
    "key_area k < a"
    "\<forall>k'\<in>set ks1. key_area k' < a \<longrightarrow> key_area k' \<le> key_area k"
    "\<forall>k'\<in>set ks2. key_area k' < a \<longrightarrow> key_area k' < key_area k"
    "key_area l \<le> key_area k"
  shows "fst (snd (scan_keys a (ks1 @ k # ks2) (l, b))) = k"
  using assms
proof (induction ks1 arbitrary: l b)
  case Nil
  then show ?case by (simp add: scan_keys_keep_lower)
next
  case (Cons k1 ks1)
  let ?l1 = "if key_area k1 < a \<and> key_area k1 \<ge> key_area l then k1 else l"
  let ?b1 = "if key_area k1 \<ge> a \<and> key_area k1 \<le> key_area b then k1 else b"
  have "key_area ?l1 \<le> key_area k" using Cons.prems by simp
  moreover have "\<forall>k'\<in>set (ks1 @ k # ks2). key_area k' \<noteq> a"
    using Cons.prems(1) by simp
  moreover have "\<forall>k'\<in>set ks1. key_area k' < a \<longrightarrow> key_area k' \<le> key_area k"
    using Cons.prems(3) by simp
  ultimately have "fst (snd (scan_keys a (ks1 @ k # ks2) (?l1, ?b1))) = k"
    using Cons.prems(2,4) by (intro Cons.IH)
  moreover have "key_area k1 \<noteq> a" using Cons.prems(1) by simp
  ultimately show ?case by simp
qed

lemma scan_keys_bigger:
  assumes "\<forall>k'\<in>set (ks1 @ k # ks2). key_area k' \<noteq> a"
    "key_area k > a"
    "\<forall>k'\<in>set ks1. key_area k' > a \<longrightarrow> key_area k' \<ge> key_area k"
    "\<forall>k'\<in>set ks2. key_area k' > a \<longrightarrow> key_area k' > key_area k"
    "key_area b \<ge> key_area k"
  shows "snd (snd (scan_keys a (ks1 @ k # ks2) (l, b))) = k"
  using assms
proof (induction ks1 arbitrary: l b)
  case Nil
  then show ?case by (simp add: scan_keys_keep_bigger)
next
  case (Cons k1 ks1)
  let ?l1 = "if key_area k1 < a \<and> key_area k1 \<ge> key_area l then k1 else l"
  let ?b1 = "if key_area k1 \<ge> a \<and> key_area k1 \<le> key_area b then k1 else b"
  have "key_area ?b1 \<ge> key_area k" using Cons.prems by (simp add: less_le)
  moreover have "\<forall>k'\<in>set (ks1 @ k # ks2). key_area k' \<noteq> a"
    using Cons.prems(1) by simp
  moreover have "\<forall>k'\<in>set ks1. key_area k' > a \<longrightarrow> key_area k' \<ge> key_area k"
    using Cons.prems(3) by simp
  ultimately have "snd (snd (scan_keys a (ks1 @ k # ks2) (?l1, ?b1))) = k"
    using Cons.prems(2,4) by (intro Cons.IH)
  moreover have "key_area k1 \<noteq> a" using Cons.prems(1) by simp
  ultimately show ?case by simp
qed

lemma scan_keys_first_match:
  assumes "find (\<lambda>k. key_area k = a) ks = Some k"
  shows "fst (scan_keys a ks (l, b)) = True \<and> fst (snd (scan_keys a ks (l, b))) = k"
  using assms by (induction ks arbitrary: l b) (auto split: if_splits)

lemma find_map_fst:
  "find (\<lambda>r. P (fst r)) grid = Some row \<Longrightarrow> find P (map fst grid) = Some (fst row)"
  by (induction grid) (auto split: if_splits)

lemma find_member: "find P xs = Some x \<Longrightarrow> x \<in> set xs"
  by (induction xs) (auto split: if_splits)

lemma get_keys_exact:
  assumes "find (\<lambda>r. key_area (fst r) = w * h) grid = Some row"
  shows "get_keys grid w h = Single (fst row)"
proof -
  obtain l0 b0 where ib: "initial_bounds (map fst grid) = (l0, b0)"
    by (cases "initial_bounds (map fst grid)")
  from scan_keys_first_match [OF find_map_fst [OF assms], of l0 b0]
  obtain b' where "scan_keys (w * h) (map fst grid) (l0, b0) = (True, fst row, b')"
    by (cases "scan_keys (w * h) (map fst grid) (l0, b0)") auto
  then show ?thesis by (simp add: get_keys_def ib)
qed

lemma lookup_member:
  assumes "distinct (map fst grid)" "r \<in> set grid"
  shows "lookup grid (fst r) = Inr (snd r)"
proof -
  have "map_of grid (fst r) = Some (snd r)"
    using assms by simp
  then show ?thesis by (simp add: lookup_def)
qed

subsection \<open>An exact match on both axes\<close>

text \<open>
  C1. On a grid whose keys are distinct and whose rows have seven prices, when the
  area \<open>width * height\<close> of the query is the area of some row and the quantity is a
  rung of the ladder, \<open>get_cost\<close> returns a tabulated price unchanged: the price at
  that rung of the first row, in file order, that has this area. A row behind an
  earlier row of the same area is never the one read.
\<close>

theorem get_cost_exact_match:
  assumes "well_formed grid"
    and "find (\<lambda>r. key_area (fst r) = w * h) grid = Some row"
    and "i < 7"
  shows "get_cost grid h w (numbering_list ! i) = Inr (of_int (snd row ! i))"
proof -
  have a: "h * w = w * h" by (simp add: mult.commute)
  have k: "get_keys grid h w = Single (fst row)"
    using get_keys_exact [of h w grid row] assms(2) by (simp add: a)
  have m: "row \<in> set grid" using assms(2) by (rule find_member)
  then have lk: "lookup grid (fst row) = Inr (snd row)"
    using assms(1) by (simp add: well_formed_def lookup_member)
  have len: "length (snd row) = 7" using assms(1) m by (simp add: well_formed_def)
  show ?thesis
    unfolding get_cost_def Let_def k quantity_bounds_rung [OF assms(3)]
    by (simp add: bind_result_def lk row_cost_rung [OF assms(3) len])
qed

text \<open>Scenario B: the row \<open>"small, 50, 30"\<close>, height 30, width 50, quantity 5.\<close>

theorem get_cost_exact_match_witness:
  "well_formed scenario_b \<and>
   find (\<lambda>r. key_area (fst r) = 50 * 30) scenario_b
     = Some ((''small'', 50, 30), [10, 20, 30, 40, 50, 60, 70]) \<and>
   get_cost scenario_b 30 50 5 = Inr 20"
  using get_cost_exact_match
    [of scenario_b 50 30 "((''small'', 50, 30), [10, 20, 30, 40, 50, 60, 70])" 1]
  by (simp add: scenario_b_def well_formed_def key_area_def numbering_list_def)

text \<open>
  With two rows of area 1500 the second row is not the one read: at quantity 5 its
  price is 21 and the method returns 20, the price of the first.
\<close>

theorem get_cost_same_area_counterexample:
  "well_formed same_area_grid \<and>
   key_area (''b'', 30, 50) = 50 * 30 \<and> numbering_list ! 1 = 5 \<and>
   lookup same_area_grid (''b'', 30, 50) = Inr [11, 21, 31, 41, 51, 61, 71] \<and>
   get_cost same_area_grid 30 50 5 = Inr 20 \<and>
   get_cost same_area_grid 30 50 5 \<noteq> Inr (of_int ([11, 21, 31, 41, 51, 61, 71] ! 1))"
  by (simp add: same_area_grid_def well_formed_def get_cost_def get_keys_def
      initial_bounds_def key_area_def quantity_bounds_eq bind_result_def lookup_def
      row_cost_def py_get_def numbering_list_def get_interpolation_def)

subsection \<open>A query between two rows\<close>

lemma last_filter_split:
  assumes "\<exists>x\<in>set xs. P x"
  obtains ys zs where "xs = ys @ last (filter P xs) # zs" "P (last (filter P xs))"
    "\<forall>z\<in>set zs. \<not> P z"
proof -
  from split_list_last_prop [OF assms] obtain ys x zs
    where s: "xs = ys @ x # zs" "P x" "\<forall>z\<in>set zs. \<not> P z" by blast
  then have "filter P zs = []" by (simp add: filter_empty_conv)
  then have l: "last (filter P xs) = x" using s by simp
  show thesis
  proof (rule that [of ys zs])
    show "xs = ys @ last (filter P xs) # zs" using s(1) l by simp
    show "P (last (filter P xs))" using s(2) l by simp
    show "\<forall>z\<in>set zs. \<not> P z" by (rule s(3))
  qed
qed

lemma greatest_below_exists:
  fixes f :: "'a \<Rightarrow> int"
  assumes "\<exists>x\<in>set xs. f x \<le> a"
  shows "\<exists>x\<in>set xs. f x \<le> a \<and> (\<forall>y\<in>set xs. f y \<le> a \<longrightarrow> f y \<le> f x)"
proof -
  let ?S = "f ` {x \<in> set xs. f x \<le> a}"
  have fin: "finite ?S" by simp
  have ne: "?S \<noteq> {}" using assms by auto
  from Max_in [OF fin ne] obtain x where x: "x \<in> set xs" "f x \<le> a" "f x = Max ?S"
    by auto
  have "f y \<le> f x" if "y \<in> set xs" "f y \<le> a" for y
    using that Max_ge [OF fin, of "f y"] x(3) by auto
  with x show ?thesis by blast
qed

lemma least_above_exists:
  fixes f :: "'a \<Rightarrow> int"
  assumes "\<exists>x\<in>set xs. f x \<ge> a"
  shows "\<exists>x\<in>set xs. f x \<ge> a \<and> (\<forall>y\<in>set xs. f y \<ge> a \<longrightarrow> f y \<ge> f x)"
proof -
  let ?S = "f ` {x \<in> set xs. f x \<ge> a}"
  have fin: "finite ?S" by simp
  have ne: "?S \<noteq> {}" using assms by auto
  from Min_in [OF fin ne] obtain x where x: "x \<in> set xs" "f x \<ge> a" "f x = Min ?S"
    by auto
  have "f y \<ge> f x" if "y \<in> set xs" "f y \<ge> a" for y
    using that Min_le [OF fin, of "f y"] x(3) by auto
  with x show ?thesis by blast
qed

text \<open>
  Between the least and the greatest area and on no row's area, the scan ends on the
  two rows the specification names, and they differ.
\<close>

lemma get_keys_between:
  assumes lo: "\<exists>r\<in>set grid. key_area (fst r) < w * h"
    and hi: "\<exists>r\<in>set grid. w * h < key_area (fst r)"
    and ne: "\<forall>r\<in>set grid. key_area (fst r) \<noteq> w * h"
  shows "get_keys grid w h = Pair (fst (lower_row grid (w * h))) (fst (upper_row grid (w * h)))"
    and "lower_row grid (w * h) \<in> set grid" and "upper_row grid (w * h) \<in> set grid"
    and "key_area (fst (lower_row grid (w * h))) < w * h"
    and "w * h < key_area (fst (upper_row grid (w * h)))"
proof -
  let ?a = "w * h"
  let ?ks = "map fst grid"
  let ?PL = "\<lambda>r. key_area (fst r) \<le> ?a \<and>
      (\<forall>r'\<in>set grid. key_area (fst r') \<le> ?a \<longrightarrow> key_area (fst r') \<le> key_area (fst r))"
  let ?PU = "\<lambda>r. key_area (fst r) \<ge> ?a \<and>
      (\<forall>r'\<in>set grid. key_area (fst r') \<ge> ?a \<longrightarrow> key_area (fst r') \<ge> key_area (fst r))"
  let ?L = "lower_row grid ?a"
  let ?U = "upper_row grid ?a"
  have nek: "\<forall>k\<in>set ?ks. key_area k \<noteq> ?a" using ne by auto
  have "\<exists>r\<in>set grid. key_area (fst r) \<le> ?a" using lo by force
  from greatest_below_exists [OF this] have "\<exists>r\<in>set grid. ?PL r" .
  from last_filter_split [OF this] obtain g1 g2 where
    L: "grid = g1 @ ?L # g2" "?PL ?L" "\<forall>z\<in>set g2. \<not> ?PL z"
    unfolding lower_row_def by blast
  have "\<exists>r\<in>set grid. key_area (fst r) \<ge> ?a" using hi by force
  from least_above_exists [OF this] have "\<exists>r\<in>set grid. ?PU r" .
  from last_filter_split [OF this] obtain u1 u2 where
    U: "grid = u1 @ ?U # u2" "?PU ?U" "\<forall>z\<in>set u2. \<not> ?PU z"
    unfolding upper_row_def by blast
  show Lin: "?L \<in> set grid" using L(1) by (metis in_set_conv_decomp)
  show Uin: "?U \<in> set grid" using U(1) by (metis in_set_conv_decomp)
  have "key_area (fst ?L) \<noteq> ?a" using ne Lin by blast
  then show Llt: "key_area (fst ?L) < ?a" using L(2) by linarith
  have "key_area (fst ?U) \<noteq> ?a" using ne Uin by blast
  then show Ugt: "?a < key_area (fst ?U)" using U(2) by linarith
  have g2in: "z \<in> set grid" if "z \<in> set g2" for z
    using that L(1) by (metis Un_iff set_append list.set_intros(2))
  have u2in: "z \<in> set grid" if "z \<in> set u2" for z
    using that U(1) by (metis Un_iff set_append list.set_intros(2))
  have g1in: "z \<in> set grid" if "z \<in> set g1" for z
    using that L(1) by (metis Un_iff set_append)
  have u1in: "z \<in> set grid" if "z \<in> set u1" for z
    using that U(1) by (metis Un_iff set_append)
  have Lg2: "key_area (fst z) < key_area (fst ?L)"
    if "z \<in> set g2" "key_area (fst z) < ?a" for z
  proof (rule ccontr)
    assume "\<not> key_area (fst z) < key_area (fst ?L)"
    then have "key_area (fst z) = key_area (fst ?L)"
      using L(2) that(2) g2in [OF that(1)] by force
    then have "?PL z" using L(2) by simp
    with L(3) that(1) show False by blast
  qed
  have Ug2: "key_area (fst z) > key_area (fst ?U)"
    if "z \<in> set u2" "key_area (fst z) > ?a" for z
  proof (rule ccontr)
    assume "\<not> key_area (fst z) > key_area (fst ?U)"
    then have "key_area (fst z) = key_area (fst ?U)"
      using U(2) that(2) u2in [OF that(1)] by force
    then have "?PU z" using U(2) by simp
    with U(3) that(1) show False by blast
  qed
  have ksL: "?ks = map fst g1 @ fst ?L # map fst g2"
    using L(1) by (metis list.simps(9) map_append)
  have ksU: "?ks = map fst u1 @ fst ?U # map fst u2"
    using U(1) by (metis list.simps(9) map_append)
  obtain l0 b0 where ib: "initial_bounds ?ks = (l0, b0)" by (cases "initial_bounds ?ks")
  have l0: "key_area l0 \<le> key_area (fst ?L)"
    using initial_bounds_extreme(1) [of "fst ?L" ?ks] Lin ib by simp
  have b0: "key_area (fst ?U) \<le> key_area b0"
    using initial_bounds_extreme(2) [of "fst ?U" ?ks] Uin ib by simp
  have low: "fst (snd (scan_keys ?a ?ks (l0, b0))) = fst ?L"
  proof -
    have "fst (snd (scan_keys ?a (map fst g1 @ fst ?L # map fst g2) (l0, b0))) = fst ?L"
    proof (rule scan_keys_lower)
      show "\<forall>k'\<in>set (map fst g1 @ fst ?L # map fst g2). key_area k' \<noteq> ?a"
        using nek ksL by simp
      show "key_area (fst ?L) < ?a" by (rule Llt)
      show "\<forall>k'\<in>set (map fst g1). key_area k' < ?a \<longrightarrow> key_area k' \<le> key_area (fst ?L)"
        using L(2) g1in by auto
      show "\<forall>k'\<in>set (map fst g2). key_area k' < ?a \<longrightarrow> key_area k' < key_area (fst ?L)"
        using Lg2 by auto
      show "key_area l0 \<le> key_area (fst ?L)" by (rule l0)
    qed
    then show ?thesis using ksL by simp
  qed
  have upp: "snd (snd (scan_keys ?a ?ks (l0, b0))) = fst ?U"
  proof -
    have "snd (snd (scan_keys ?a (map fst u1 @ fst ?U # map fst u2) (l0, b0))) = fst ?U"
    proof (rule scan_keys_bigger)
      show "\<forall>k'\<in>set (map fst u1 @ fst ?U # map fst u2). key_area k' \<noteq> ?a"
        using nek ksU by simp
      show "key_area (fst ?U) > ?a" by (rule Ugt)
      show "\<forall>k'\<in>set (map fst u1). key_area k' > ?a \<longrightarrow> key_area k' \<ge> key_area (fst ?U)"
        using U(2) u1in by auto
      show "\<forall>k'\<in>set (map fst u2). key_area k' > ?a \<longrightarrow> key_area k' > key_area (fst ?U)"
        using Ug2 by auto
      show "key_area b0 \<ge> key_area (fst ?U)" by (rule b0)
    qed
    then show ?thesis using ksU by simp
  qed
  have flag: "fst (scan_keys ?a ?ks (l0, b0)) = False"
    using nek by (rule scan_keys_flag)
  have "scan_keys ?a ?ks (l0, b0) = (False, fst ?L, fst ?U)"
    using low upp flag by (cases "scan_keys ?a ?ks (l0, b0)") auto
  moreover have "fst ?L \<noteq> fst ?U" using Llt Ugt by auto
  ultimately show "get_keys grid w h = Pair (fst ?L) (fst ?U)"
    by (simp add: get_keys_def ib)
qed

text \<open>
  C2. On a grid whose keys are distinct and whose rows have seven prices, for a query
  whose area \<open>width * height\<close> lies strictly between the least and the greatest row area
  and is no row's area, \<open>get_cost\<close> is the two-stage computation: both bounding rows are
  interpolated on the quantity axis at the requested quantity, and the two results
  are interpolated on the area axis, between the areas of the two rows, at the
  query's area.
\<close>

theorem get_cost_bilinear:
  assumes wf: "well_formed grid"
    and lo: "\<exists>r\<in>set grid. key_area (fst r) < w * h"
    and hi: "\<exists>r\<in>set grid. w * h < key_area (fst r)"
    and ne: "\<forall>r\<in>set grid. key_area (fst r) \<noteq> w * h"
  shows "get_cost grid h w num = Inr (bilinear_reference grid h w num)"
proof -
  have a: "w * h = h * w" by (simp add: mult.commute)
  note k = get_keys_between [of grid h w, folded a, OF lo hi ne]
  let ?L = "lower_row grid (w * h)"
  let ?U = "upper_row grid (w * h)"
  obtain li bi where qb: "quantity_bounds num = Inr (li, bi)"
    using quantity_bounds_rungs [of num] by blast
  have len: "length (snd ?L) = 7" "length (snd ?U) = 7"
    using wf k(2,3) by (simp_all add: well_formed_def)
  have lk: "lookup grid (fst ?L) = Inr (snd ?L)" "lookup grid (fst ?U) = Inr (snd ?U)"
    using wf k(2,3) by (simp_all add: well_formed_def lookup_member)
  have rc: "row_cost (snd ?L) num li bi = Inr (interpolate_at_quantity (snd ?L) num)"
    "row_cost (snd ?U) num li bi = Inr (interpolate_at_quantity (snd ?U) num)"
    using len qb by (simp_all add: row_cost_rungs)
  have "key_area (fst ?L) < key_area (fst ?U)" using k(4,5) by linarith
  from get_interpolation_between [OF this, of "w * h"] k(4,5)
  have gi: "get_interpolation (w * h) (key_area (fst ?L), y1) (key_area (fst ?U), y2)
     = Inr (linear_interpolation (w * h) (key_area (fst ?L), y1) (key_area (fst ?U), y2))"
    for y1 y2
    by simp
  show ?thesis
    unfolding get_cost_def Let_def k(1) qb
    by (simp add: bind_result_def lk rc gi bilinear_reference_def Let_def)
qed

text \<open>
  Rows of area 1500 and 5000, a query of area 2000 and quantity 7: 22 and 230 on the
  quantity axis, and \<open>22 + 500 / 3500 * 208\<close> on the area axis.
\<close>

theorem get_cost_bilinear_witness:
  "well_formed two_row_grid \<and>
   key_area (''a'', 50, 30) < 50 * 40 \<and> 50 * 40 < key_area (''b'', 100, 50) \<and>
   get_cost two_row_grid 40 50 7 = Inr (bilinear_reference two_row_grid 40 50 7) \<and>
   bilinear_reference two_row_grid 40 50 7 = 362 / 7"
  using get_cost_bilinear [of two_row_grid 50 40 7]
  by (simp add: two_row_grid_def well_formed_def key_area_def bilinear_reference_def
      lower_row_def upper_row_def interpolate_at_quantity_def rungs_eq
      linear_interpolation_def numbering_list_def)

section \<open>Properties of ContainerPacking\<close>

lemma py_int_of_int: "py_int (of_int n) = n"
  by (simp add: py_int_def)

lemma py_int_mult_of_int: "py_int (of_int a * of_int b) = a * b"
  using py_int_of_int [of "a * b"] by simp

lemma floor_small:
  fixes x y :: real
  assumes "0 \<le> x" "x < y"
  shows "\<lfloor>x / y\<rfloor> = 0"
proof -
  have "0 < y" using assms by linarith
  then have "0 \<le> x / y" "x / y < 1" using assms by simp_all
  then show ?thesis by linarith
qed

text \<open>
  The first orientation packs the band the specification describes: when the strip
  left of the usable width holds the item's height, the count grows by
  \<open>floor(leftover / height) * floor(usableHeight / width)\<close>.
\<close>

lemma figure_1_leftover_band:
  assumes "width self \<noteq> 0" "height self \<noteq> 0"
    "w_big self - of_int \<lfloor>w_big self / of_int (width self)\<rfloor> * of_int (width self)
       \<ge> of_int (height self)"
  shows "figure_1 self =
     Inr (total_1 self
          + \<lfloor>w_big self / of_int (width self)\<rfloor> * \<lfloor>h_big self / of_int (height self)\<rfloor>
          + leftover_band (w_big self) (h_big self) (width self) (height self))"
  using assms
  by (simp add: figure_1_def figure_1_body_def bind_result_def py_floordiv_def Let_def
      py_int_mult_of_int leftover_band_def)

text \<open>
  C4. In the second orientation the item is placed as \<open>height\<close> by \<open>width\<close>. On a sheet
  of 600 by 400 (usable width 540) an item of width 30 and height 100 fills 5 rows of
  13; the strip left is 40 wide and holds the item's width, so a band of
  \<open>floor(40 / 30) * floor(400 / 100) = 4\<close> is due and the count should be 69. The method
  measures the strip from the sheet's height instead, \<open>(400 - 500) // 30 = -4\<close>, and
  returns \<open>65 - 16 = 49\<close>.
\<close>

theorem figure_2_leftover_band_failing_input:
  "figure_2 (container_packing_init 600 400 30 100) = Inr 49 \<and>
   \<lfloor>600 * (9 / 10) / 100 :: real\<rfloor> * \<lfloor>400 / 30 :: real\<rfloor>
     + leftover_band (600 * (9 / 10)) 400 100 30 = 69 \<and>
   figure_1 (container_packing_init 600 400 100 30) = Inr 69"
  by (simp add: figure_2_def figure_2_body_def figure_1_def figure_1_body_def
      container_packing_init_def bind_result_def py_floordiv_def py_int_def Let_def
      leftover_band_def)

lemma figure_1_too_big:
  assumes "0 \<le> W" "0 \<le> H" "W < of_int w" "H < of_int h"
  shows "figure_1 (container_packing_init W H w h) = Inr 0"
proof -
  have w: "(of_int w :: real) \<noteq> 0" and h: "(of_int h :: real) \<noteq> 0"
    using assms by auto
  have W9: "0 \<le> W * (9 / 10)" "W * (9 / 10) \<le> W" using assms(1) by simp_all
  have rows: "\<lfloor>W * (9 / 10) / of_int w\<rfloor> = 0"
    using W9 assms(3) by (intro floor_small) linarith+
  have cols: "\<lfloor>H / of_int h\<rfloor> = 0"
    using assms by (intro floor_small)
  have y2: "\<lfloor>H / of_int w\<rfloor> = 0" if "of_int h \<le> W * (9 / 10)"
    using that W9 assms by (intro floor_small) linarith+
  show ?thesis
    using w h rows cols y2
    by (simp add: figure_1_def figure_1_body_def container_packing_init_def bind_result_def
        py_floordiv_def py_int_def Let_def)
qed

lemma figure_2_too_big:
  assumes "0 \<le> W" "0 \<le> H" "W < of_int w" "H < of_int h"
  shows "figure_2 (container_packing_init W H w h) = Inr 0"
proof -
  have w: "(of_int w :: real) \<noteq> 0" and h: "(of_int h :: real) \<noteq> 0"
    using assms by auto
  have W9: "0 \<le> W * (9 / 10)" "W * (9 / 10) \<le> W" using assms(1) by simp_all
  have hpos: "(0::real) < of_int h" using assms by linarith
  have rows0: "0 \<le> \<lfloor>W * (9 / 10) / of_int h\<rfloor>"
    using W9 hpos by simp
  have prod: "\<lfloor>W * (9 / 10) / of_int h\<rfloor> * \<lfloor>H / of_int w\<rfloor> = 0"
  proof (cases "W * (9 / 10) < of_int h")
    case True
    then have "\<lfloor>W * (9 / 10) / of_int h\<rfloor> = 0" using W9 by (intro floor_small)
    then show ?thesis by simp
  next
    case False
    then have "H < of_int w" using assms W9 by linarith
    then have "\<lfloor>H / of_int w\<rfloor> = 0" using assms(2) by (intro floor_small)
    then show ?thesis by simp
  qed
  have nolo: "\<not> of_int w \<le> W * (9 / 10) - of_int \<lfloor>W * (9 / 10) / of_int h\<rfloor> * of_int h"
  proof -
    have "0 \<le> of_int \<lfloor>W * (9 / 10) / of_int h\<rfloor> * (of_int h :: real)"
      using rows0 hpos by simp
    then show ?thesis using W9 assms(3) by linarith
  qed
  have "py_int (of_int \<lfloor>W * (9 / 10) / of_int h\<rfloor> * of_int \<lfloor>H / of_int w\<rfloor>) = 0"
    using prod by (simp only: py_int_mult_of_int)
  then show ?thesis
    using w h nolo
    by (simp add: figure_2_def figure_2_body_def container_packing_init_def bind_result_def
        py_floordiv_def Let_def)
qed

lemma figure_zero_dimension:
  assumes "w = 0 \<or> h = 0"
  shows "figure_1 (container_packing_init W H w h) = Inr 0 \<and>
         figure_2 (container_packing_init W H w h) = Inr 0"
  using assms
  by (auto simp: figure_1_def figure_1_body_def figure_2_def figure_2_body_def
        container_packing_init_def bind_result_def py_floordiv_def Let_def)

lemma figure_never_raises:
  "(\<exists>n. figure_1 self = Inr n) \<and> (\<exists>n. figure_2 self = Inr n)"
  by (simp add: figure_1_def figure_1_body_def figure_2_def figure_2_body_def
        bind_result_def py_floordiv_def Let_def)

text \<open>
  C9. For a sheet \<open>W\<close> by \<open>H\<close> (no dimension negative) and an item wider than \<open>W\<close> and
  higher than \<open>H\<close>, hence of positive dimensions, \<open>figure_1\<close> and \<open>figure_2\<close> both return
  0: no row or no column fits, and the band of the leftover strip adds nothing. No
  exception leaves either method, whatever the object: the only one the body can
  raise is the division by zero of an item with a zero dimension, and its handler
  sets the total to 0.
\<close>

theorem figures_item_larger_than_sheet:
  "(0 \<le> W \<longrightarrow> 0 \<le> H \<longrightarrow> W < of_int w \<longrightarrow> H < of_int h \<longrightarrow>
      figure_1 (container_packing_init W H w h) = Inr 0 \<and>
      figure_2 (container_packing_init W H w h) = Inr 0) \<and>
   (w0 = 0 \<or> h0 = 0 \<longrightarrow>
      figure_1 (container_packing_init W0 H0 w0 h0) = Inr 0 \<and>
      figure_2 (container_packing_init W0 H0 w0 h0) = Inr 0) \<and>
   (\<exists>n. figure_1 self = Inr n) \<and> (\<exists>n. figure_2 self = Inr n)"
  using figure_1_too_big [of W H w h] figure_2_too_big [of W H w h]
    figure_zero_dimension [of w0 h0 W0 H0] figure_never_raises [of self]
  by blast

theorem figures_item_larger_than_sheet_witness:
  "(0::real) \<le> 600 \<and> (0::real) \<le> 400 \<and> (600::real) < of_int 700 \<and> (400::real) < of_int 500 \<and>
   figure_1 (container_packing_init 600 400 700 500) = Inr 0 \<and>
   figure_2 (container_packing_init 600 400 700 500) = Inr 0 \<and>
   figure_1 (container_packing_init 600 400 0 50) = Inr 0 \<and>
   figure_2 (container_packing_init 600 400 0 50) = Inr 0"
  using figures_item_larger_than_sheet
    [where W = 600 and H = 400 and w = 700 and h = 500
       and ?w0.0 = 0 and ?h0.0 = 50 and ?W0.0 = 600 and ?H0.0 = 400]
  by simp

section \<open>Properties of RatioArea\<close>

lemma ratio_non_numeric:
  "get_linear_ratio self (Str s)
     = (Inr (Some 1), [(''RatioArea.get_linear_ratio'', Log_error)]) \<and>
   get_polynomial_ratio self (Str s)
     = (Inr None, [(''RatioArea.get_polynomial_ratio'', Log_error)])"
  by (simp add: get_linear_ratio_def get_polynomial_ratio_def linear_ratio_body_def
      polynomial_ratio_body_def py_le_def bind_result_def)

text \<open>
  C7. For the area \<open>'abc'\<close> the comparison with \<open>area_min\<close> raises \<open>TypeError\<close> in both
  methods and both handlers write to the log. \<open>get_linear_ratio\<close> then returns 1.0;
  \<open>get_polynomial_ratio\<close> has no \<open>return\<close> in its handler and returns \<open>None\<close>.
\<close>

theorem get_polynomial_ratio_failing_input:
  "get_polynomial_ratio (ratio_area_init 15000 272000 2) (Str ''abc'')
     = (Inr None, [(''RatioArea.get_polynomial_ratio'', Log_error)]) \<and>
   get_linear_ratio (ratio_area_init 4900 40000 2) (Str ''abc'')
     = (Inr (Some 1), [(''RatioArea.get_linear_ratio'', Log_error)])"
  by (simp add: get_linear_ratio_def get_polynomial_ratio_def linear_ratio_body_def
      polynomial_ratio_body_def py_le_def bind_result_def)

section \<open>Properties of doubles\<close>

lemma bit_length_step: "0 < n \<Longrightarrow> bit_length n = Suc (bit_length (n div 2))"
  using bit_length.simps [of n] by simp

lemma bit_length_bounds:
  "0 < n \<Longrightarrow> 2 ^ (bit_length n - 1) \<le> n \<and> n < 2 ^ bit_length n"
proof (induction n rule: bit_length.induct)
  case (1 n)
  note bl = bit_length_step [OF "1.prems"]
  show ?case
  proof (cases "n = 1")
    case True
    have "bit_length (0::int) = 0" using bit_length.simps [of 0] by simp
    then show ?thesis using True bl by simp
  next
    case False
    with "1.prems" have h: "0 < n div 2" by simp
    with "1.IH" "1.prems"
    have ih: "2 ^ (bit_length (n div 2) - 1) \<le> n div 2" "n div 2 < 2 ^ bit_length (n div 2)"
      by simp_all
    obtain k where k: "bit_length (n div 2) = Suc k"
      using bit_length_step [OF h] by simp
    have "2 * (n div 2) \<le> n" "n < 2 * (n div 2) + 2" by simp_all
    then show ?thesis using ih unfolding bl k by simp
  qed
qed

text \<open>A positive number lies in the binade that \<open>binary_exponent\<close> names.\<close>

lemma binary_exponent_bounds:
  assumes "0 < x"
  shows "pow2 (binary_exponent x) \<le> x \<and> x < pow2 (binary_exponent x + 1)"
proof (cases "1 \<le> x")
  case True
  define n where "n = \<lfloor>x\<rfloor>"
  have n: "0 < n" using True by (simp add: n_def)
  obtain k where k: "bit_length n = Suc k"
    using bit_length_step [OF n] by simp
  from bit_length_bounds [OF n]
  have b: "(2::int) ^ k \<le> n" "n + 1 \<le> 2 ^ Suc k" by (simp_all add: k)
  have "(2::real) ^ k = of_int (2 ^ k)" by simp
  also have "\<dots> \<le> of_int n" using b(1) by (simp only: of_int_le_iff)
  also have "\<dots> \<le> x" by (simp add: n_def)
  finally have lo: "(2::real) ^ k \<le> x" .
  have "x < of_int (n + 1)" by (simp add: n_def)
  also have "\<dots> \<le> of_int (2 ^ Suc k)" using b(2) by (simp only: of_int_le_iff)
  finally have hi: "x < 2 ^ Suc k" by simp
  have e: "binary_exponent x = int k"
    using True by (simp add: binary_exponent_def n_def [symmetric] k)
  have "nat (int k + 1) = Suc k" by simp
  then show ?thesis using lo hi by (simp add: e pow2_def)
next
  case False
  define y where "y = 1 / x"
  define n where "n = \<lceil>y\<rceil> - 1"
  have y: "1 < y" using False assms by (simp add: y_def)
  then have "1 < \<lceil>y\<rceil>" by (simp add: less_ceiling_iff)
  then have n: "0 < n" by (simp add: n_def)
  obtain k where k: "bit_length n = Suc k"
    using bit_length_step [OF n] by simp
  from bit_length_bounds [OF n]
  have b: "(2::int) ^ k \<le> n" "n + 1 \<le> 2 ^ Suc k" by (simp_all add: k)
  have ny: "of_int n < y" "y \<le> of_int n + 1"
    unfolding n_def by linarith+
  have "(2::real) ^ k = of_int (2 ^ k)" by simp
  also have "\<dots> \<le> of_int n" using b(1) by (simp only: of_int_le_iff)
  finally have "(2::real) ^ k \<le> of_int n" .
  then have lo: "(2::real) ^ k < y" using ny(1) by linarith
  have "y \<le> of_int (n + 1)" using ny(2) by simp
  also have "\<dots> \<le> of_int (2 ^ Suc k)" using b(2) by (simp only: of_int_le_iff)
  finally have hi: "y \<le> 2 ^ Suc k" by simp
  have e: "binary_exponent x = - int (Suc k)"
    using False by (simp add: binary_exponent_def n_def [symmetric] y_def [symmetric] k)
  have x: "1 / y = x" using assms by (simp add: y_def)
  have nk: "nat (int k + 1) = Suc k" "nat (1 + int k) = Suc k" by simp_all
  have p1: "pow2 (- int (Suc k)) = 1 / 2 ^ Suc k"
    by (simp add: pow2_def nk)
  have "- int (Suc k) + 1 = - int k" by simp
  moreover have "pow2 (- int k) = 1 / 2 ^ k"
    by (cases "k = 0") (simp_all add: pow2_def)
  ultimately have p2: "pow2 (- int (Suc k) + 1) = 1 / 2 ^ k"
    by (simp only:)
  have "1 / 2 ^ Suc k \<le> 1 / y" using hi y by (intro divide_left_mono) simp_all
  moreover have "1 / y < 1 / 2 ^ k" using lo y by (intro divide_strict_left_mono) simp_all
  ultimately show ?thesis unfolding e p1 p2 x by simp
qed

lemma py_round_near: "\<bar>of_int (py_round x) - x\<bar> \<le> 1 / 2"
proof -
  have "of_int \<lfloor>x\<rfloor> \<le> x" "x < of_int \<lfloor>x\<rfloor> + 1" by linarith+
  then show ?thesis unfolding py_round_def Let_def by auto
qed

lemma pow2_pos: "0 < pow2 e"
  by (simp add: pow2_def)

text \<open>Rounding to a double moves a number by half a unit in its last place at most.\<close>

lemma to_double_near:
  "\<bar>to_double x - x\<bar> \<le> pow2 (binary_exponent \<bar>x\<bar> - 52) / 2"
proof (cases "x = 0")
  case True
  then show ?thesis using pow2_pos [of "binary_exponent 0 - 52"] by (simp add: to_double_def)
next
  case False
  define q where "q = pow2 (binary_exponent \<bar>x\<bar> - 52)"
  have q: "0 < q" by (simp add: q_def pow2_pos)
  have "to_double x = of_int (py_round (x / q)) * q"
    using False by (simp add: to_double_def q_def Let_def)
  moreover have "x = x / q * q" using q by simp
  ultimately have "to_double x - x = (of_int (py_round (x / q)) - x / q) * q"
    by (simp only: left_diff_distrib) 
  then have "\<bar>to_double x - x\<bar> = \<bar>of_int (py_round (x / q)) - x / q\<bar> * q"
    using q by (simp add: abs_mult)
  also have "\<dots> \<le> 1 / 2 * q"
    using py_round_near [of "x / q"] q by (intro mult_right_mono) simp_all
  finally show ?thesis by (simp add: q_def)
qed

section \<open>Properties of DeepEngraving\<close>

lemma float_all_error:
  "\<exists>v\<in>set parts. \<not> is_num v \<Longrightarrow>
     float_all parts = Inl ValueError \<or> float_all parts = Inl TypeError"
proof (induction parts)
  case Nil
  then show ?case by simp
next
  case (Cons a parts)
  show ?case
  proof (cases a)
    case (Num r)
    with Cons have "float_all parts = Inl ValueError \<or> float_all parts = Inl TypeError"
      by (simp add: is_num_def)
    then show ?thesis using Num by (auto simp: py_float_def bind_result_def)
  qed (simp_all add: py_float_def bind_result_def)
qed

lemma float_all_num: "float_all (map Num rs) = Inr (map to_double rs)"
  by (induction rs) (simp_all add: py_float_def bind_result_def)

lemma py_float_error:
  "\<not> is_num v \<Longrightarrow> py_float v = Inl ValueError \<or> py_float v = Inl TypeError"
  by (cases v) (simp_all add: py_float_def is_num_def)

lemma float_all_cases:
  "float_all parts = Inl ValueError \<or> float_all parts = Inl TypeError \<or>
   (\<exists>rs. float_all parts = Inr rs)"
proof (induction parts)
  case Nil
  then show ?case by simp
next
  case (Cons a parts)
  then show ?case by (cases a) (auto simp: py_float_def bind_result_def)
qed

lemma depth_parse_error:
  assumes "config name = None \<or>
           (\<exists>parts. config name = Some parts \<and> (\<exists>v\<in>set parts. \<not> is_num v)) \<or>
           \<not> is_num depth"
  shows "depth_parse config name depth \<in> {Inl KeyError, Inl ValueError, Inl TypeError}"
proof (cases "config name")
  case None
  then show ?thesis by (simp add: depth_parse_def)
next
  case (Some parts)
  consider (bad) "float_all parts = Inl ValueError \<or> float_all parts = Inl TypeError"
    | (good) rs where "float_all parts = Inr rs"
    using float_all_cases [of parts] by blast
  then show ?thesis
  proof cases
    case bad
    then show ?thesis using Some by (auto simp: depth_parse_def bind_result_def)
  next
    case good
    with float_all_error [of parts] have "\<not> (\<exists>v\<in>set parts. \<not> is_num v)"
      by auto
    with assms Some have "\<not> is_num depth" by auto
    from py_float_error [OF this] show ?thesis
      using Some good by (auto simp: depth_parse_def bind_result_def)
  qed
qed

text \<open>
  Whatever is wrong with the material, its profile or the depth, the handler of
  \<open>depth_calculate\<close> takes it: the method logs and returns \<open>None\<close>.
\<close>

lemma depth_calculate_swallows:
  assumes "config name = None \<or>
           (\<exists>parts. config name = Some parts \<and> (\<exists>v\<in>set parts. \<not> is_num v)) \<or>
           \<not> is_num depth"
  shows "depth_calculate config name depth
           = (Inr None, [(''DeepEngraving.depth_calculate'', Log_error)])"
  using depth_parse_error [of config name depth] assms
  by (auto simp: depth_calculate_def)

text \<open>
  C5. The material \<open>wood\<close> is asked for and the configuration holds \<open>steel\<close> only.
  \<open>depth_calculate\<close> catches the \<open>KeyError\<close> itself, writes an error to the log and
  returns \<open>None\<close>: no error of configuration reaches the caller. The caller in
  \<open>child_power_set_window.py\<close> unpacks the result into three names inside a \<open>try\<close>
  with a handler for \<open>KeyError\<close>, which reports that the material is not in the base;
  that handler is never entered, and unpacking \<open>None\<close> raises the \<open>TypeError\<close> whose
  handler reports a wrong depth.
\<close>

theorem depth_calculate_unknown_material_failing_input:
  "depth_calculate (map_of [(''steel'', [Num (1 / 2), Num 10])]) ''wood'' (Num 1)
     = (Inr None, [(''DeepEngraving.depth_calculate'', Log_error)])"
  by (simp add: depth_calculate_def depth_parse_def)

subsection \<open>A depth of three steps\<close>

lemma to_double_tenth: "to_double (1 / 10) = 3602879701896397 / 36028797018963968"
  by code_simp

lemma to_double_three_tenths: "to_double (3 / 10) = 5404319552844595 / 18014398509481984"
  by code_simp

lemma to_double_half: "to_double (1 / 2) = 1 / 2"
  by code_simp

lemma to_double_three_halves: "to_double (3 / 2) = 3 / 2"
  by code_simp

lemma to_double_ten: "to_double 10 = 10"
  by code_simp

lemma py_int_whole: "py_int 0 = 0" "py_int 2 = 2" "py_int 3 = 3" "py_int 10 = 10"
  by (simp_all add: py_int_def)

text \<open>\<open>0.3 // 0.1\<close> is \<open>2.0\<close> and \<open>0.3 % 0.1\<close> is \<open>0.09999999999999998\<close>.\<close>

lemma float_divmod_three_tenths:
  "float_divmod (5404319552844595 / 18014398509481984)
                (3602879701896397 / 36028797018963968)
     = Inr (2, 900719925474099 / 9007199254740992)"
  by code_simp

lemma float_truediv_remnant:
  "float_truediv (900719925474099 / 9007199254740992) (3602879701896397 / 36028797018963968)
     = Inr (4503599627370495 / 4503599627370496)"
  by code_simp

lemma float_mul_remnant:
  "float_mul (4503599627370495 / 4503599627370496) 10 = 5629499534213119 / 562949953421312"
  by code_simp

lemma py_int_remnant: "py_int (5629499534213119 / 562949953421312) = 9"
  by (simp add: py_int_def)

lemma result_29: "float_add (float_mul (to_double 2) 10) (to_double 9) = 29"
  by code_simp

lemma depth_plan_of_three_tenths:
  "depth_plan_of [3602879701896397 / 36028797018963968, 10]
                 (5404319552844595 / 18014398509481984)
     = Inr (Focus_change, 29, [2, 10, 3602879701896397 / 36028797018963968, 9])"
  by (simp add: depth_plan_of_def py_get_def bind_result_def float_floordiv_def float_mod_def
      float_divmod_three_tenths float_truediv_remnant float_mul_remnant py_int_remnant
      py_int_whole result_29 Let_def)

lemma depth_parse_three_tenths:
  "depth_parse (map_of [(''steel'', [Num (1 / 10), Num 10])]) ''steel'' (Num (3 / 10))
     = Inr ([3602879701896397 / 36028797018963968, 10], 5404319552844595 / 18014398509481984)"
  by (simp add: depth_parse_def py_float_def bind_result_def
      to_double_tenth to_double_three_tenths to_double_ten)

text \<open>\<open>1.5 // 0.5\<close> is \<open>3.0\<close> and \<open>1.5 % 0.5\<close> is \<open>0.0\<close>: both numbers are doubles.\<close>

lemma float_divmod_three_halves: "float_divmod (3 / 2) (1 / 2) = Inr (3, 0)"
  by code_simp

lemma float_truediv_zero: "float_truediv 0 (1 / 2) = Inr 0"
  by code_simp

lemma float_mul_zero: "float_mul 0 10 = 0"
  by code_simp

lemma result_30: "float_add (float_mul (to_double 3) 10) (to_double 0) = 30"
  by code_simp

lemma depth_plan_of_three_halves:
  "depth_plan_of [1 / 2, 10] (3 / 2) = Inr (Focus_change, 30, [2, 10, 1 / 2, 10])"
  by (simp add: depth_plan_of_def py_get_def bind_result_def float_floordiv_def float_mod_def
      float_divmod_three_halves float_truediv_zero float_mul_zero py_int_whole result_30
      Let_def)

lemma depth_parse_three_halves:
  "depth_parse (map_of [(''steel'', [Num (1 / 2), Num 10])]) ''steel'' (Num (3 / 2))
     = Inr ([1 / 2, 10], 3 / 2)"
  by (simp add: depth_parse_def py_float_def bind_result_def
      to_double_half to_double_three_halves to_double_ten)

text \<open>
  A step and a depth that doubles hold exactly: three steps of \<open>0.5\<close> take \<open>30\<close> passes
  with the plan \<open>[2, 10, 0.5, 10]\<close>.
\<close>

lemma depth_calculate_binary_multiple:
  "depth_calculate (map_of [(''steel'', [Num (1 / 2), Num 10])]) ''steel'' (Num (3 / 2))
     = (Inr (Some (Focus_change, 30, [2, 10, 1 / 2, 10])), [])"
  unfolding depth_calculate_def depth_parse_three_halves
  by (simp add: depth_plan_of_three_halves)

text \<open>
  C6. The profile \<open>0.1, 10\<close> and the depth \<open>0.3\<close>, three steps as written. In doubles
  \<open>0.3 // 0.1\<close> is \<open>2.0\<close> and \<open>0.3 % 0.1\<close> is not \<open>0\<close>, so the branch for a depth that is
  a multiple of the step is not taken: \<open>depth_calculate\<close> returns \<open>29\<close> passes and the
  plan \<open>[2, 10, 0.1, 9]\<close>, where three steps of ten passes are \<open>30\<close> passes and the plan
  \<open>[2, 10, 0.1, 10]\<close>.
\<close>

theorem depth_calculate_decimal_multiple_failing_input:
  "depth_calculate (map_of [(''steel'', [Num (1 / 10), Num 10])]) ''steel'' (Num (3 / 10))
     = (Inr (Some (Focus_change, 29, [2, 10, 3602879701896397 / 36028797018963968, 9])), [])"
  unfolding depth_calculate_def depth_parse_three_tenths
  by (simp add: depth_plan_of_three_tenths)

section \<open>Properties of round_result\<close>

lemma py_round_close: "2 * \<bar>of_int (py_round x) - x\<bar> \<le> 1"
proof -
  have "of_int \<lfloor>x\<rfloor> \<le> x" "x < of_int \<lfloor>x\<rfloor> + 1"
    by linarith+
  then show ?thesis
    unfolding py_round_def Let_def by (simp add: abs_if) linarith
qed

lemma py_round_scaled:
  assumes "0 < m"
  shows "nearest_multiple m c (py_round (c / of_int m) * m)"
proof -
  have m: "(0::real) < of_int m" using assms by simp
  have "2 * \<bar>of_int (py_round (c / of_int m)) - c / of_int m\<bar> * of_int m \<le> 1 * of_int m"
    using py_round_close [of "c / of_int m"] m by (intro mult_right_mono) simp_all
  moreover have "\<bar>of_int (py_round (c / of_int m)) - c / of_int m\<bar> * of_int m
      = \<bar>of_int (py_round (c / of_int m) * m) - c\<bar>"
  proof -
    have "\<bar>of_int (py_round (c / of_int m)) - c / of_int m\<bar> * \<bar>of_int m :: real\<bar>
      = \<bar>(of_int (py_round (c / of_int m)) - c / of_int m) * of_int m\<bar>"
      by (simp only: abs_mult)
    also have "(of_int (py_round (c / of_int m)) - c / of_int m) * of_int m
       = of_int (py_round (c / of_int m) * m) - c"
      using m by (simp add: field_simps)
    finally show ?thesis using m by simp
  qed
  ultimately show ?thesis
    by (simp add: nearest_multiple_def)
qed

lemma abs_triangle_half:
  fixes a b c t :: real
  assumes "t \<le> \<bar>a - b\<bar>" "2 * \<bar>b - c\<bar> \<le> t"
  shows "\<bar>b - c\<bar> \<le> \<bar>a - c\<bar>"
  using assms by argo

text \<open>No multiple of \<open>m\<close> is nearer to \<open>c\<close> than a nearest multiple.\<close>

lemma nearest_multiple_optimal:
  assumes "nearest_multiple m c r" "0 < m"
  shows "\<bar>of_int r - c\<bar> \<le> \<bar>of_int (m * k) - c\<bar>"
proof (cases "m * k = r")
  case True
  then show ?thesis by simp
next
  case False
  from assms(1) have "m dvd r" and near: "2 * \<bar>of_int r - c\<bar> \<le> of_int m"
    by (simp_all add: nearest_multiple_def)
  then obtain j where r: "r = m * j" by (auto simp: dvd_def)
  from False r have "k \<noteq> j" by auto
  then have "1 \<le> \<bar>k - j\<bar>" by simp
  then have "m * 1 \<le> m * \<bar>k - j\<bar>" using assms(2) by (intro mult_left_mono) simp_all
  moreover have "\<bar>m * k - r\<bar> = m * \<bar>k - j\<bar>"
    using assms(2) r by (simp add: abs_mult flip: right_diff_distrib)
  ultimately have "m \<le> \<bar>m * k - r\<bar>" by simp
  then have "(of_int m :: real) \<le> of_int \<bar>m * k - r\<bar>" by (simp only: of_int_le_iff)
  then have "(of_int m :: real) \<le> \<bar>of_int (m * k) - of_int r\<bar>" by simp
  then show ?thesis using near by (rule abs_triangle_half)
qed

lemma py_round_of_int: "py_round (of_int n) = n"
  by (simp add: py_round_def)

lemma main_cost_scenario_c: "main_cost (scenario_c per_aim pw_items pw_set) = 1000"
  by (simp add: scenario_c_def main_cost_def aim_cost_def many_items_ratio_def
      one_set_ratio_def discount_ratio_def)

lemma main_calculation_scenario_c:
  "main_calculation (scenario_c per_aim pw_items pw_set) = (1000, 1000)"
proof -
  have "py_round (20::real) = 20" using py_round_of_int [of 20] by simp
  then have "round_result 1000 = 1000" by (simp add: round_result_def)
  moreover have "spin_number (scenario_c per_aim pw_items pw_set) = 1"
    "cost_design (scenario_c per_aim pw_items pw_set) = 0"
    by (simp_all add: scenario_c_def)
  ultimately show ?thesis
    by (simp add: main_calculation_def main_cost_scenario_c)
qed

text \<open>
  C8. \<open>round_result\<close> rounds a cost of at least 800 to a nearest multiple of 50, a cost
  from 250 and below 800 to a nearest multiple of 10, a cost from 85 and below 250 to
  a nearest multiple of 5, and truncates any other cost to an integer. In scenario C
  the cost of one item is 1000, in the first tier; it is rounded to 1000, and the
  order of one item costs that.
\<close>

theorem round_result_tiers:
  "(800 \<le> c1 \<longrightarrow> nearest_multiple 50 c1 (round_result c1)) \<and>
   (250 \<le> c2 \<and> c2 < 800 \<longrightarrow> nearest_multiple 10 c2 (round_result c2)) \<and>
   (85 \<le> c3 \<and> c3 < 250 \<longrightarrow> nearest_multiple 5 c3 (round_result c3)) \<and>
   (c4 < 85 \<longrightarrow> round_result c4 = py_int c4) \<and>
   800 \<le> main_cost (scenario_c per_aim pw_items pw_set) \<and>
   main_calculation (scenario_c per_aim pw_items pw_set) = (1000, 1000 * 1)"
  using py_round_scaled [of 50 c1] py_round_scaled [of 10 c2] py_round_scaled [of 5 c3]
  by (simp add: round_result_def main_cost_scenario_c main_calculation_scenario_c)

theorem round_result_tiers_witness:
  "nearest_multiple 50 1010 (round_result 1010) \<and> round_result 1010 = 1000 \<and>
   nearest_multiple 10 333 (round_result 333) \<and> round_result 333 = 330 \<and>
   nearest_multiple 5 101 (round_result 101) \<and> round_result 101 = 100 \<and>
   round_result (169 / 2) = 84"
  using round_result_tiers [where ?c1.0 = 1010 and ?c2.0 = 333 and ?c3.0 = 101
      and ?c4.0 = "169 / 2"]
  by (simp add: round_result_def py_round_def py_int_def Let_def)

section \<open>Properties of MonochromeBMP\<close>

lemma length_filter_less_upt: "length (filter (\<lambda>b. b < k) [0..<n]) = min n k"
  by (induction n) auto

lemma length_byte_bits: "length (byte_bits w x v) = min 8 (w - x * 8)"
proof -
  have "(\<lambda>bit. x * 8 + bit < w) = (\<lambda>bit. bit < w - x * 8)"
    by (auto simp: fun_eq_iff)
  then show ?thesis
    unfolding byte_bits_def length_map
    using length_filter_less_upt [of "w - x * 8" 8] by simp
qed

lemma set_byte_bits: "set (byte_bits w x v) \<subseteq> {0, 1}"
  by (auto simp: byte_bits_def)

lemma read_row_inv:
  assumes "read_row data w [x..<n] (pos, row) = Inr (pos', row')"
    "length row = min w (x * 8)" "set row \<subseteq> {0, 1}" "x \<le> n"
  shows "length row' = min w (n * 8) \<and> set row' \<subseteq> {0, 1}"
  using assms
proof (induction "n - x" arbitrary: x pos row)
  case 0
  then show ?case by simp
next
  case (Suc d)
  then have xn: "x < n" by simp
  then have upt: "[x..<n] = x # [Suc x..<n]" by (simp add: upt_rec)
  from Suc.prems(1) obtain byte where b: "file_read data pos 1 = [byte]"
    and rec: "read_row data w [Suc x..<n] (pos + 1, row @ byte_bits w x (unat byte))
                = Inr (pos', row')"
    unfolding upt by (auto split: list.splits)
  have "length (row @ byte_bits w x (unat byte)) = min w (Suc x * 8)"
    using Suc.prems(2) by (simp add: length_byte_bits)
  moreover have "set (row @ byte_bits w x (unat byte)) \<subseteq> {0, 1}"
    using Suc.prems(3) set_byte_bits [of w x "unat byte"] by simp
  moreover have "d = n - Suc x" using Suc.hyps(2) by simp
  ultimately show ?case using Suc.hyps(1) rec xn by auto
qed

lemma row_size_covers: "min w ((w + 7) div 8 * 8) = (w::nat)"
  by (simp add: min_def)

lemma read_row_full:
  assumes "read_row data w [0..<(w + 7) div 8] (pos, []) = Inr (pos', row')"
  shows "row_ok w row'"
  using read_row_inv [OF assms] row_size_covers [of w] by (simp add: row_ok_def)

lemma read_rows_inv:
  assumes "read_rows data w ((w + 7) div 8) padding ys (pos, rows) = (None, rows')"
    "\<forall>row\<in>set rows. row_ok w row"
  shows "(\<forall>row\<in>set rows'. row_ok w row) \<and> length rows' = length rows + length ys"
  using assms
proof (induction ys arbitrary: pos rows)
  case Nil
  then show ?case by simp
next
  case (Cons y ys)
  from Cons.prems(1) obtain p row
    where r: "read_row data w [0..<(w + 7) div 8] (pos, []) = Inr (p, row)"
      and rec: "read_rows data w ((w + 7) div 8) padding ys
            (p + length (file_read data p padding), rows @ [row]) = (None, rows')"
    by (auto split: sum.splits)
  have "\<forall>r\<in>set (rows @ [row]). row_ok w r"
    using Cons.prems(2) read_row_full [OF r] by simp
  from Cons.IH [OF rec this] show ?case by simp
qed

lemma count_row:
  "set row \<subseteq> {0, 1::nat} \<Longrightarrow> count_list row 1 + count_list row 0 = length row"
  by (induction row) auto

lemma count_fold:
  assumes "\<forall>row\<in>set rows. row_ok w row"
    "fold (\<lambda>row (white_pixels, black_pixels).
             (white_pixels + count_list row 1, black_pixels + count_list row 0))
       rows (a, b) = (white, black)"
  shows "white + black = a + b + w * length rows"
  using assms
proof (induction rows arbitrary: a b)
  case Nil
  then show ?case by simp
next
  case (Cons r rows)
  have "count_list r 1 + count_list r 0 = w"
    using Cons.prems(1) count_row [of r] by (simp add: row_ok_def)
  moreover have "white + black = (a + count_list r 1) + (b + count_list r 0) + w * length rows"
    using Cons.prems by (intro Cons.IH) simp_all
  ultimately show ?case by (simp add: algebra_simps)
qed

lemma read_bmp_rows:
  assumes "read_bmp opened = (bmp, None)"
  shows "(\<forall>row\<in>set (pixel_data bmp). row_ok (bmp_width bmp) row) \<and>
         length (pixel_data bmp) = bmp_height bmp"
proof -
  from assms obtain data where f: "opened = Some data"
    by (cases opened) (simp_all add: read_bmp_def)
  define w where "w = from_bytes_little (file_read data 18 4)"
  define h where "h = from_bytes_little (file_read data (18 + length (file_read data 18 4)) 4)"
  define off where "off = from_bytes_little (file_read data 10 4)"
  define padding where "padding = ((w + 7) div 8 + 3) div 4 * 4 - (w + 7) div 8"
  obtain err rows
    where rr: "read_rows data w ((w + 7) div 8) padding [0..<h] (off, []) = (err, rows)"
    by (cases "read_rows data w ((w + 7) div 8) padding [0..<h] (off, [])")
  from assms have "err = None" "bmp_width bmp = w" "bmp_height bmp = h" "pixel_data bmp = rows"
    using rr unfolding f read_bmp_def Let_def w_def h_def off_def padding_def
    by auto
  moreover from read_rows_inv [of data w padding "[0..<h]" off "[]" rows] rr \<open>err = None\<close>
  have "(\<forall>row\<in>set rows. row_ok w row) \<and> length rows = h" by simp
  ultimately show ?thesis by simp
qed

text \<open>
  C10. When \<open>_read_bmp\<close> reads a file and its handler catches nothing, every row of
  \<open>pixel_data\<close> has exactly \<open>width\<close> entries (the bits beyond the width in the last byte
  of a row are dropped), there are \<open>height\<close> rows, and the two numbers \<open>count_pixels\<close>
  returns add up to \<open>width * height\<close>.
\<close>

theorem count_pixels_total:
  assumes "read_bmp opened = (bmp, None)"
  shows "(\<forall>row\<in>set (pixel_data bmp). length row = bmp_width bmp) \<and>
         length (pixel_data bmp) = bmp_height bmp \<and>
         fst (count_pixels bmp) + snd (count_pixels bmp) = bmp_width bmp * bmp_height bmp"
proof -
  note r = read_bmp_rows [OF assms]
  obtain white black where c: "count_pixels bmp = (white, black)"
    by (cases "count_pixels bmp")
  from count_fold [of "pixel_data bmp" "bmp_width bmp" 0 0 white black] r c
  have "white + black = bmp_width bmp * bmp_height bmp"
    by (simp add: count_pixels_def)
  then show ?thesis using r c by (simp add: row_ok_def)
qed

lemma read_bmp_example:
  "read_bmp (Some example_file) =
     (\<lparr>bmp_width = 3, bmp_height = 2, x_pixels_per_meter = Some 0,
       y_pixels_per_meter = Some 0, pixel_data = [[1, 0, 1], [0, 1, 0]]\<rparr>, None)"
  by (simp add: read_bmp_def example_file_def file_read_def Let_def upt_rec byte_bits_def)

theorem count_pixels_total_witness:
  "read_bmp (Some example_file) =
     (\<lparr>bmp_width = 3, bmp_height = 2, x_pixels_per_meter = Some 0,
       y_pixels_per_meter = Some 0, pixel_data = [[1, 0, 1], [0, 1, 0]]\<rparr>, None) \<and>
   count_pixels \<lparr>bmp_width = 3, bmp_height = 2, x_pixels_per_meter = Some 0,
       y_pixels_per_meter = Some 0, pixel_data = [[1, 0, 1], [0, 1, 0]]\<rparr> = (3, 3)"
  using count_pixels_total [OF read_bmp_example]
  by (simp add: read_bmp_example count_pixels_def)

end
